theory Spec2Isabelle
  imports Main "HOL-Library.AList" "HOL-Library.Sublist"
begin

section \<open>JavaScript values\<close>

text \<open>
  The values that travel through the server are parsed JSON: the argument object of a
  function call and the fields read from it. An object lists its own properties, each key
  once. A number is given by the text that JavaScript prints for it (\<^verbatim>\<open>7\<close>, \<^verbatim>\<open>0.5\<close>,
  \<^verbatim>\<open>1e+21\<close>), the only use the server makes of a number. \<open>JUndefined\<close> is the result of
  reading a missing property.
\<close>

datatype jsval =
    JUndefined
  | JNull
  | JBool bool
  | JNum string
  | JStr string
  | JArr "jsval list"
  | JObj "(string \<times> jsval) list"

datatype js_error =
    TypeError string
  | ENOENT "string list"
  | EISDIR "string list"
  | ENOTDIR "string list"
  | EEXIST "string list"

definition digit_char :: "nat \<Rightarrow> char" where
  "digit_char d = char_of (48 + d)"

fun digits :: "nat \<Rightarrow> string" where
  "digits n = (if n < 10 then [digit_char n] else digits (n div 10) @ [digit_char (n mod 10)])"

declare digits.simps [simp del]

text \<open>
  \<^verbatim>\<open>Date.now().toString()\<close>: the decimal digits of the reading, with a leading minus sign
  before 1970.
\<close>

definition number_toString :: "int \<Rightarrow> string" where
  "number_toString n = (if n < 0 then ''-'' @ digits (nat (- n)) else digits (nat n))"

text \<open>
  String conversion as performed by a template literal \<^verbatim>\<open>`${v}`\<close> and by \<^verbatim>\<open>s + v\<close>.
  An array joins its elements with commas (\<^verbatim>\<open>null\<close> and \<^verbatim>\<open>undefined\<close> elements are
  empty). An object is \<^verbatim>\<open>[object Object]\<close>, unless it has an own property \<^verbatim>\<open>toString\<close>:
  a parsed value is not callable, so the conversion finds no method that yields a
  primitive and throws a \<^verbatim>\<open>TypeError\<close>. The conversion of an array throws where the
  conversion of an element does.
\<close>

definition cannot_convert :: js_error where
  "cannot_convert = TypeError ''Cannot convert object to primitive value''"

fun to_string :: "jsval \<Rightarrow> js_error + string"
  and join_elements :: "jsval list \<Rightarrow> js_error + string"
  and element_string :: "jsval \<Rightarrow> js_error + string" where
  "to_string JUndefined = Inr ''undefined''"
| "to_string JNull = Inr ''null''"
| "to_string (JBool b) = Inr (if b then ''true'' else ''false'')"
| "to_string (JNum t) = Inr t"
| "to_string (JStr s) = Inr s"
| "to_string (JArr xs) = join_elements xs"
| "to_string (JObj ms) =
     (if ''toString'' \<in> set (map fst ms) then Inl cannot_convert else Inr ''[object Object]'')"
| "join_elements [] = Inr []"
| "join_elements [x] = element_string x"
| "join_elements (x # y # ys) =
     (case element_string x of
        Inl e \<Rightarrow> Inl e
      | Inr sx \<Rightarrow> (case join_elements (y # ys) of
                     Inl e \<Rightarrow> Inl e
                   | Inr r \<Rightarrow> Inr (sx @ '','' @ r)))"
| "element_string JUndefined = Inr []"
| "element_string JNull = Inr []"
| "element_string (JBool b) = to_string (JBool b)"
| "element_string (JNum t) = to_string (JNum t)"
| "element_string (JStr s) = to_string (JStr s)"
| "element_string (JArr xs) = to_string (JArr xs)"
| "element_string (JObj ms) = to_string (JObj ms)"

text \<open>
  Destructuring \<^verbatim>\<open>const { f } = args\<close>, for the properties \<^verbatim>\<open>title\<close> and \<^verbatim>\<open>message\<close> that
  the handlers read: it throws a \<^verbatim>\<open>TypeError\<close> on \<^verbatim>\<open>null\<close> and
  \<^verbatim>\<open>undefined\<close>, reads the property of an object and yields \<^verbatim>\<open>undefined\<close> where the
  property is missing.
\<close>

fun destructure :: "jsval \<Rightarrow> string \<Rightarrow> js_error + jsval" where
  "destructure JUndefined f = Inl (TypeError f)"
| "destructure JNull f = Inl (TypeError f)"
| "destructure (JObj fs) f = Inr (case map_of fs f of None \<Rightarrow> JUndefined | Some v \<Rightarrow> v)"
| "destructure v f = Inr JUndefined"

section \<open>The file system\<close>

text \<open>
  Paths are lists of segments, so \<^verbatim>\<open>path.join(p, 'a', 'b')\<close> is \<open>p @ [''a'', ''b'']\<close>.
  A file system maps a path to a regular file with its text or to a directory.
\<close>

type_synonym path = "string list"

datatype node = File string | Dir

type_synonym filesystem = "path \<Rightarrow> node option"

fun is_file :: "node option \<Rightarrow> bool" where
  "is_file (Some (File c)) = True"
| "is_file n = False"

text \<open>\<^verbatim>\<open>fs.mkdirSync(p, { recursive: true })\<close>: every missing ancestor is created; it throws,
  leaving the file system as it was, when \<open>p\<close> or one of its ancestors is a regular file.\<close>

definition mkdirSync :: "path \<Rightarrow> filesystem \<Rightarrow> js_error + filesystem" where
  "mkdirSync p fsys =
     (case find (\<lambda>q. is_file (fsys q)) (prefixes p) of
        Some q \<Rightarrow> Inl (if q = p then EEXIST p else ENOTDIR p)
      | None \<Rightarrow> Inr (\<lambda>q. if q \<in> set (prefixes p) then Some Dir else fsys q))"

definition writeFileSync :: "path \<Rightarrow> string \<Rightarrow> filesystem \<Rightarrow> js_error + filesystem" where
  "writeFileSync p text fsys =
     (case fsys p of
        Some Dir \<Rightarrow> Inl (EISDIR p)
      | _ \<Rightarrow> (case fsys (butlast p) of
                Some Dir \<Rightarrow> Inr (fsys(p \<mapsto> File text))
              | Some (File c) \<Rightarrow> Inl (ENOTDIR p)
              | None \<Rightarrow> Inl (ENOENT p)))"

definition readFileSync :: "path \<Rightarrow> filesystem \<Rightarrow> js_error + string" where
  "readFileSync p fsys =
     (case fsys p of
        Some (File c) \<Rightarrow> Inr c
      | Some Dir \<Rightarrow> Inl (EISDIR p)
      | None \<Rightarrow> Inl (ENOENT p))"

definition existsSync :: "path \<Rightarrow> filesystem \<Rightarrow> bool" where
  "existsSync p fsys = (fsys p \<noteq> None)"

section \<open>The server: session registry and duplicate ledger\<close>

record session =
  sid :: string
  title :: jsval
  path :: path
  createdAt :: int
  lastModified :: int

text \<open>
  The state of the server process: the working directory, the module variable
  \<^verbatim>\<open>currentSession\<close>, the map \<^verbatim>\<open>_recentOperations\<close> (a JavaScript \<^verbatim>\<open>Map\<close>, kept
  in insertion order) and the file system.
\<close>

record server =
  cwd :: path
  currentSession :: "session option"
  recentOperations :: "(string \<times> int) list"
  fs :: filesystem

definition getCurrentSession :: "server \<Rightarrow> session option" where
  "getCurrentSession st = currentSession st"

text \<open>
  A clock is the sequence of readings that the calls of \<^verbatim>\<open>Date.now()\<close> and
  \<^verbatim>\<open>new Date()\<close> made by one request return, in milliseconds: \<open>clock 0\<close> is the first
  reading, \<open>clock 1\<close> the second, and so on.
\<close>

type_synonym clock = "nat \<Rightarrow> int"

definition createPatentSession :: "clock \<Rightarrow> jsval \<Rightarrow> server \<Rightarrow> js_error + (session \<times> server)" where
  "createPatentSession clk ttl st =
     (let sessionId = number_toString (clk 0);
          sessionPath = cwd st @ [''patents'', sessionId]
      in case mkdirSync sessionPath (fs st) of
           Inl e \<Rightarrow> Inl e
         | Inr fsys \<Rightarrow>
             (let s = \<lparr> sid = sessionId, title = ttl, path = sessionPath,
                        createdAt = clk 1, lastModified = clk 2 \<rparr>
              in Inr (s, st\<lparr> fs := fsys, currentSession := Some s \<rparr>)))"

definition updateSessionModified :: "clock \<Rightarrow> server \<Rightarrow> server" where
  "updateSessionModified clk st =
     (case currentSession st of
        None \<Rightarrow> st
      | Some s \<Rightarrow> st\<lparr> currentSession := Some (s\<lparr> lastModified := clk 0 \<rparr>) \<rparr>)"

text \<open>
  \<^verbatim>\<open>_checkDuplicate(operation, args, timeWindow)\<close>. The serializer \<^verbatim>\<open>JSON.stringify\<close>
  is a parameter. A stored time of \<open>0\<close> is falsy in \<^verbatim>\<open>lastTime && ...\<close>. The result is
  the returned flag and the ledger afterwards.
\<close>

definition checkDuplicate ::
  "(jsval \<Rightarrow> string) \<Rightarrow> string \<Rightarrow> jsval \<Rightarrow> int \<Rightarrow> int \<Rightarrow> (string \<times> int) list
     \<Rightarrow> bool \<times> (string \<times> int) list" where
  "checkDuplicate stringify operation args now timeWindow ops =
     (let key = operation @ ''-'' @ stringify args;
          lastTime = map_of ops key
      in if (case lastTime of None \<Rightarrow> False | Some t \<Rightarrow> t \<noteq> 0 \<and> now - t < timeWindow)
         then (True, ops)
         else (False, filter (\<lambda>(k, time). \<not> now - time > timeWindow) (AList.update key now ops)))"

section \<open>The function executor\<close>

text \<open>
  A result object. A field that the returned object literal does not have is \<open>None\<close>.
  The field \<open>error\<close> holds the caught exception, whose message text the source stores.
\<close>

record result =
  success :: "bool option"
  message :: "string option"
  error :: "js_error option"
  result_path :: "path option"
  content :: "string option"
  result_session :: "session option"

definition no_fields :: result where
  "no_fields = \<lparr> success = None, message = None, error = None, result_path = None,
                  content = None, result_session = None \<rparr>"

definition newline :: string where
  "newline = [CHR 0x0A]"

definition dquote :: string where
  "dquote = [CHR 0x22]"

definition apostrophe :: string where
  "apostrophe = [CHR 0x27]"

text \<open>
  The template literal \<^verbatim>\<open>initialMd\<close>: the title converted to a string, in sixteen lines,
  each ended by a line feed. It throws where the conversion of the title does.
\<close>

definition initialMd :: "jsval \<Rightarrow> js_error + string" where
  "initialMd ttl =
     (case to_string ttl of
        Inl e \<Rightarrow> Inl e
      | Inr t \<Rightarrow> Inr (concat (map (\<lambda>l. l @ newline)
          [''# '' @ t,
           [],
           ''## Abstract'',
           ''[Brief summary of the invention]'',
           [],
           ''## Background'',
           ''[Context and existing solutions]'',
           [],
           ''## Summary'',
           ''[Overview of the invention]'',
           [],
           ''## Detailed Description'',
           ''[Complete technical details]'',
           [],
           ''## Claims'',
           ''[Legal claims of the patent]''])))"

definition duplicate_result :: result where
  "duplicate_result = no_fields\<lparr> success := Some False,
     message := Some ''Duplicate operation prevented'' \<rparr>"

definition no_session_result :: result where
  "no_session_result = no_fields\<lparr> success := Some False,
     message := Some ''No active patent session found'' \<rparr>"

definition file_not_found_result :: result where
  "file_not_found_result = no_fields\<lparr> success := Some False,
     message := Some ''Patent file not found'' \<rparr>"

text \<open>The object returned by a \<^verbatim>\<open>catch\<close> branch: \<^verbatim>\<open>{ success: false, error: error.message }\<close>.\<close>

definition caught_result :: "js_error \<Rightarrow> result" where
  "caught_result e = no_fields\<lparr> success := Some False, error := Some e \<rparr>"

text \<open>
  A handler takes the clock of its request, the argument value and the server state, and
  either returns a result object or throws (\<open>Inl\<close>); the state afterwards is the second
  component. Inside a \<^verbatim>\<open>try\<close> an exception of the storage or of a string
  conversion reaches the \<^verbatim>\<open>catch\<close> branch; outside it is thrown by the handler.
\<close>

type_synonym handler = "clock \<Rightarrow> jsval \<Rightarrow> server \<Rightarrow> (js_error + result) \<times> server"

definition create_template :: "(jsval \<Rightarrow> string) \<Rightarrow> handler" where
  "create_template stringify clk args st =
     (case checkDuplicate stringify ''create_template'' args (clk 0) 2000 (recentOperations st) of
        (True, ops) \<Rightarrow> (Inr duplicate_result, st)
      | (False, ops) \<Rightarrow>
          (let st1 = st\<lparr> recentOperations := ops \<rparr> in
           case destructure args ''title'' of
             Inl e \<Rightarrow> (Inr (caught_result e), st1)
           | Inr ttl \<Rightarrow>
               (case createPatentSession (\<lambda>k. clk (Suc k)) ttl st1 of
                  Inl e \<Rightarrow> (Inr (caught_result e), st1)
                | Inr (s, st2) \<Rightarrow>
                    (case initialMd ttl of
                       Inl e \<Rightarrow> (Inr (caught_result e), st2)
                     | Inr md \<Rightarrow>
                         (case writeFileSync (path s @ [''main.md'']) md (fs st2) of
                            Inl e \<Rightarrow> (Inr (caught_result e), st2)
                          | Inr fsys \<Rightarrow>
                              (case to_string ttl of
                                 Inl e \<Rightarrow> (Inr (caught_result e), st2\<lparr> fs := fsys \<rparr>)
                               | Inr t \<Rightarrow>
                                   (Inr (no_fields\<lparr> success := Some True,
                                           result_path := Some (path s),
                                           content := Some md,
                                           message := Some (''Created new patent document for ''
                                             @ dquote @ t @ dquote @ ''. Let'' @ apostrophe
                                             @ ''s start documenting your invention.'') \<rparr>),
                                    st2\<lparr> fs := fsys \<rparr>)))))))"

definition resume_patent_creation :: "(jsval \<Rightarrow> string) \<Rightarrow> handler" where
  "resume_patent_creation stringify clk args st =
     (case checkDuplicate stringify ''resume_patent_creation'' (JObj []) (clk 0) 2000
             (recentOperations st) of
        (True, ops) \<Rightarrow> (Inr duplicate_result, st)
      | (False, ops) \<Rightarrow>
          (let st1 = st\<lparr> recentOperations := ops \<rparr> in
           case getCurrentSession st1 of
             None \<Rightarrow>
               (Inr (no_fields\<lparr> success := Some False,
                       message := Some (''No active patent session found. ''
                         @ ''Would you like to start a new one?'') \<rparr>), st1)
           | Some s \<Rightarrow>
               (let mdPath = path s @ [''main.md''] in
                if \<not> existsSync mdPath (fs st1) then (Inr file_not_found_result, st1)
                else case readFileSync mdPath (fs st1) of
                       Inl e \<Rightarrow> (Inl e, st1)
                     | Inr c \<Rightarrow>
                         (case to_string (title s) of
                            Inl e \<Rightarrow> (Inl e, st1)
                          | Inr t \<Rightarrow>
                              (Inr (no_fields\<lparr> success := Some True,
                                      result_session := Some s,
                                      content := Some c,
                                      message := Some (''Reopened patent document for ''
                                        @ dquote @ t @ dquote @ ''. Let'' @ apostrophe
                                        @ ''s continue documenting your invention.'') \<rparr>),
                               st1)))))"

definition display_patent :: handler where
  "display_patent clk args st =
     (case getCurrentSession st of
        None \<Rightarrow> (Inr no_session_result, st)
      | Some s \<Rightarrow>
          (let mdPath = path s @ [''main.md''] in
           if \<not> existsSync mdPath (fs st) then (Inr file_not_found_result, st)
           else case readFileSync mdPath (fs st) of
                  Inl e \<Rightarrow> (Inl e, st)
                | Inr c \<Rightarrow>
                    (Inr (no_fields\<lparr> success := Some True,
                            content := Some c,
                            message := Some (''Here'' @ apostrophe
                              @ ''s your current patent document. ''
                              @ ''Which section would you like to work on?'') \<rparr>),
                     st)))"

definition export_as_pdf :: handler where
  "export_as_pdf clk args st =
     (case getCurrentSession st of
        None \<Rightarrow> (Inr no_session_result, st)
      | Some s \<Rightarrow>
          (let mdPath = path s @ [''main.md''] in
           if \<not> existsSync mdPath (fs st) then (Inr file_not_found_result, st)
           else (Inr (no_fields\<lparr> success := Some True,
                        message := Some ''PDF export will be implemented in a future update'',
                        result_path := Some (path s @ [''patent.pdf'']) \<rparr>),
                 st)))"

definition send_user_response :: handler where
  "send_user_response clk args st =
     (case getCurrentSession st of
        None \<Rightarrow> (Inr no_session_result, st)
      | Some s \<Rightarrow>
          (case destructure args ''message'' of
             Inl e \<Rightarrow> (Inl e, st)
           | Inr msg \<Rightarrow>
               (let mdPath = path s @ [''main.md''] in
                case readFileSync mdPath (fs st) of
                  Inl e \<Rightarrow> (Inr (caught_result e), st)
                | Inr currentContent \<Rightarrow>
                    (case to_string msg of
                       Inl e \<Rightarrow> (Inr (caught_result e), st)
                     | Inr m \<Rightarrow>
                         (let updatedContent = currentContent @ newline @ newline @ m in
                          case writeFileSync mdPath updatedContent (fs st) of
                            Inl e \<Rightarrow> (Inr (caught_result e), st)
                          | Inr fsys \<Rightarrow>
                              (Inr (no_fields\<lparr> success := Some True,
                                      message := Some (''Content added to the patent document. ''
                                        @ ''What else would you like to document?'') \<rparr>),
                               updateSessionModified clk (st\<lparr> fs := fsys \<rparr>)))))))"

text \<open>The dispatch table \<^verbatim>\<open>patentFunctions\<close>, restricted to its five operations.\<close>

datatype operation =
    Create_template
  | Resume_patent_creation
  | Display_patent
  | Export_as_pdf
  | Send_user_response

fun patentFunctions :: "(jsval \<Rightarrow> string) \<Rightarrow> operation \<Rightarrow> handler" where
  "patentFunctions stringify Create_template = create_template stringify"
| "patentFunctions stringify Resume_patent_creation = resume_patent_creation stringify"
| "patentFunctions stringify Display_patent = display_patent"
| "patentFunctions stringify Export_as_pdf = export_as_pdf"
| "patentFunctions stringify Send_user_response = send_user_response"

section \<open>The tool panel\<close>

text \<open>
  The inbound events of the channel. An event has a type and possibly a response, which
  possibly has a list of outputs; an output has a type and, for a function call, the name,
  the JSON text of the arguments and a call id. An output is an object: \<open>oid\<close> is its
  identity, which distinct objects do not share, so that two outputs are the same object
  exactly when they are equal.
\<close>

record "output" =
  oid :: nat
  otype :: string
  name :: string
  arguments :: string
  call_id :: string

record response =
  outputs :: "output list option"

record event =
  etype :: string
  response :: "response option"

text \<open>The outbound event \<^verbatim>\<open>sessionUpdate\<close> with the instructions of the assistant.\<close>

record client_event =
  ce_type :: string
  instructions :: string

definition sessionUpdate :: client_event where
  "sessionUpdate = \<lparr> ce_type = ''session.update'',
     instructions = newline
       @ ''You are ScreenSense AI, a communication interface between inventors and patent lawyers. ''
       @ ''You facilitate patent documentation by:'' @ newline
       @ newline
       @ newline
       @ ''Keep on asking questions to the user to help you document the invention. ''
       @ ''Keep on doing this until you think thta the information provided by the user ''
       @ ''is enough to document the invention and file a patent from it.'' @ newline
       @ ''   '' \<rparr>"

text \<open>
  The component \<^verbatim>\<open>ToolPanel\<close>: the property \<^verbatim>\<open>isSessionActive\<close> of its last render, its two
  state variables and its reference cell.
\<close>

record panel =
  isSessionActive :: bool
  functionAdded :: bool
  functionCallOutput :: "output option"
  lastFunctionCallRef :: "string option"

text \<open>
  What an effect does to the outside: it calls \<^verbatim>\<open>sendClientEvent\<close>, or it hands a function
  call to the component that executes it, by \<^verbatim>\<open>setFunctionCallOutput(output)\<close>.
\<close>

datatype action = Send client_event | Deliver "output"

text \<open>The effect that sends the configuration once the session is active.\<close>

definition configuration_effect :: "panel \<Rightarrow> panel \<times> action list" where
  "configuration_effect p =
     (if isSessionActive p \<and> \<not> functionAdded p
      then (p\<lparr> functionAdded := True \<rparr>, [Send sessionUpdate])
      else (p, []))"

text \<open>
  The effect on the inbound events: the callback of \<^verbatim>\<open>forEach\<close> for one output, the loop
  over the outputs, and the effect itself, which looks at \<^verbatim>\<open>events[0]\<close> only. The
  serializer \<^verbatim>\<open>JSON.stringify\<close> of an output is a parameter.
\<close>

definition on_output :: "(output \<Rightarrow> string) \<Rightarrow> panel \<Rightarrow> output \<Rightarrow> panel \<times> action list" where
  "on_output stringify p out =
     (if otype out = ''function_call''
      then (let currentCall = stringify out in
            if Some currentCall = lastFunctionCallRef p then (p, [])
            else (p\<lparr> lastFunctionCallRef := Some currentCall, functionCallOutput := Some out \<rparr>,
                  [Deliver out]))
      else (p, []))"

fun forEach :: "(output \<Rightarrow> string) \<Rightarrow> output list \<Rightarrow> panel \<Rightarrow> panel \<times> action list" where
  "forEach stringify [] p = (p, [])"
| "forEach stringify (out # outs) p =
     (case on_output stringify p out of
        (p1, log1) \<Rightarrow> (case forEach stringify outs p1 of (p2, log2) \<Rightarrow> (p2, log1 @ log2)))"

definition events_effect ::
  "(output \<Rightarrow> string) \<Rightarrow> event list option \<Rightarrow> panel \<Rightarrow> panel \<times> action list" where
  "events_effect stringify events p =
     (case events of
        None \<Rightarrow> (p, [])
      | Some [] \<Rightarrow> (p, [])
      | Some (mostRecentEvent # older) \<Rightarrow>
          (if etype mostRecentEvent = ''response.done''
           then (case response mostRecentEvent of
                   None \<Rightarrow> (p, [])
                 | Some r \<Rightarrow> (case outputs r of
                                None \<Rightarrow> (p, [])
                              | Some outs \<Rightarrow> forEach stringify outs p))
           else (p, [])))"

text \<open>The effect that resets the state when the session is not active.\<close>

definition reset_effect :: "panel \<Rightarrow> panel \<times> action list" where
  "reset_effect p =
     (if \<not> isSessionActive p
      then (p\<lparr> functionAdded := False, functionCallOutput := None,
               lastFunctionCallRef := None \<rparr>, [])
      else (p, []))"

text \<open>
  The effects run when a dependency changes: \<open>Activity b\<close> is a render in which
  \<^verbatim>\<open>isSessionActive\<close> became \<open>b\<close> (the configuration effect and then the reset effect
  run), \<open>Readiness\<close> a render in which another dependency of the configuration effect
  changed, \<open>Inbound evs\<close> a render with the new event list \<open>evs\<close>. A state variable set
  by an effect has its new value in the next render, so the state is passed on.
\<close>

datatype signal = Activity bool | Readiness | Inbound "event list option"

fun panel_step :: "(output \<Rightarrow> string) \<Rightarrow> signal \<Rightarrow> panel \<Rightarrow> panel \<times> action list" where
  "panel_step stringify (Activity b) p =
     (case configuration_effect (p\<lparr> isSessionActive := b \<rparr>) of
        (p1, log1) \<Rightarrow> (case reset_effect p1 of (p2, log2) \<Rightarrow> (p2, log1 @ log2)))"
| "panel_step stringify Readiness p = configuration_effect p"
| "panel_step stringify (Inbound events) p = events_effect stringify events p"

fun panel_run :: "(output \<Rightarrow> string) \<Rightarrow> signal list \<Rightarrow> panel \<Rightarrow> panel \<times> action list" where
  "panel_run stringify [] p = (p, [])"
| "panel_run stringify (sg # sgs) p =
     (case panel_step stringify sg p of
        (p1, log1) \<Rightarrow> (case panel_run stringify sgs p1 of (p2, log2) \<Rightarrow> (p2, log1 @ log2)))"

text \<open>The events sent and the function calls delivered for execution, in order.\<close>

fun sent :: "action list \<Rightarrow> client_event list" where
  "sent [] = []"
| "sent (Send e # log) = e # sent log"
| "sent (Deliver out # log) = sent log"

fun delivered :: "action list \<Rightarrow> output list" where
  "delivered [] = []"
| "delivered (Send e # log) = delivered log"
| "delivered (Deliver out # log) = out # delivered log"

text \<open>An event \<^verbatim>\<open>response.done\<close> with the given outputs.\<close>

definition response_done :: "output list \<Rightarrow> event" where
  "response_done outs = \<lparr> etype = ''response.done'', response = Some \<lparr> outputs = Some outs \<rparr> \<rparr>"

subsection \<open>The execution of a function call\<close>

text \<open>
  \<^verbatim>\<open>executeFunctionCall\<close> posts the name and the parsed arguments of a function call to
  \<^verbatim>\<open>/function\<close>, where the executor runs. \<^verbatim>\<open>JSON.parse\<close> is a parameter, \<open>None\<close> where it
  throws: then the function returns an error object and posts nothing. The result is the
  request posted; the awaited reply, which the component shows and sends back in a
  \<^verbatim>\<open>function.response\<close> event, has no influence on which calls are executed and is left
  out.
\<close>

record request =
  req_name :: string
  req_arguments :: jsval

definition executeFunctionCall :: "(string \<Rightarrow> jsval option) \<Rightarrow> output \<Rightarrow> request list" where
  "executeFunctionCall parse functionCall =
     (case parse (arguments functionCall) of
        None \<Rightarrow> []
      | Some a \<Rightarrow> [\<lparr> req_name = name functionCall, req_arguments = a \<rparr>])"

text \<open>
  The component \<^verbatim>\<open>FunctionCallOutput\<close>: the two properties of its last render, on which
  its effect depends, and its reference cell. The effect executes the function call
  unless the cell is set, and sets it; the clean-up of the effect clears the cell.
\<close>

record view =
  shown :: "output"
  shown_sendClientEvent :: nat
  executionRef :: bool

definition FunctionCallOutput_effect ::
  "(string \<Rightarrow> jsval option) \<Rightarrow> view \<Rightarrow> view \<times> request list" where
  "FunctionCallOutput_effect parse v =
     (if executionRef v then (v, [])
      else (v\<lparr> executionRef := True \<rparr>, executeFunctionCall parse (shown v)))"

definition FunctionCallOutput_cleanup :: "view \<Rightarrow> view" where
  "FunctionCallOutput_cleanup v = v\<lparr> executionRef := False \<rparr>"

subsection \<open>Renders\<close>

text \<open>
  The properties that a render of \<^verbatim>\<open>ToolPanel\<close> receives. The function
  \<^verbatim>\<open>sendClientEvent\<close> and the array \<^verbatim>\<open>events\<close> are compared by identity when the
  dependencies of an effect are checked, so each comes with its identity.
\<close>

record props =
  prop_isSessionActive :: bool
  prop_sendClientEvent :: nat
  prop_events_id :: nat
  prop_events :: "event list option"

text \<open>
  The mounted components: the panel with the dependencies of its last render, and the
  \<^verbatim>\<open>FunctionCallOutput\<close> below it, which is there while the session is active and a
  function call is pending.
\<close>

record tree =
  mounted :: bool
  parent :: panel
  dep_sendClientEvent :: nat
  dep_events :: nat
  dep_functionAdded :: bool
  child :: "view option"

definition unmounted :: tree where
  "unmounted = \<lparr> mounted = False,
                  parent = \<lparr> isSessionActive = False, functionAdded = False,
                             functionCallOutput = None, lastFunctionCallRef = None \<rparr>,
                  dep_sendClientEvent = 0, dep_events = 0, dep_functionAdded = False,
                  child = None \<rparr>"

text \<open>
  The child after a render with the pending function call \<open>pending\<close>. It is not rendered
  when the session is not active or nothing is pending (a mounted one is removed, after
  its clean-up). A new one runs its effect. A mounted one runs the clean-up and the effect
  again when the function call or \<^verbatim>\<open>sendClientEvent\<close> is not the one of its last render.
\<close>

definition reconcile_child ::
  "(string \<Rightarrow> jsval option) \<Rightarrow> props \<Rightarrow> output option \<Rightarrow> view option
     \<Rightarrow> view option \<times> request list" where
  "reconcile_child parse pr pending c =
     (case (if prop_isSessionActive pr then pending else None) of
        None \<Rightarrow> (None, [])
      | Some out \<Rightarrow>
          (case c of
             None \<Rightarrow>
               (case FunctionCallOutput_effect parse
                       \<lparr> shown = out, shown_sendClientEvent = prop_sendClientEvent pr,
                         executionRef = False \<rparr> of
                  (v, requests) \<Rightarrow> (Some v, requests))
           | Some v \<Rightarrow>
               (if shown v = out \<and> shown_sendClientEvent v = prop_sendClientEvent pr
                then (Some v, [])
                else (case FunctionCallOutput_effect parse
                             (FunctionCallOutput_cleanup
                                (v\<lparr> shown := out,
                                    shown_sendClientEvent := prop_sendClientEvent pr \<rparr>)) of
                        (v', requests) \<Rightarrow> (Some v', requests)))))"

text \<open>
  One commit: the components are rendered with the state as it is, then the effects whose
  dependencies changed run, those of the child before those of the panel, those of the
  panel in the order of the source. On the first commit every effect runs. The state
  variables set by the effects of the panel have their new values in its result.
\<close>

definition commit ::
  "(output \<Rightarrow> string) \<Rightarrow> (string \<Rightarrow> jsval option) \<Rightarrow> props \<Rightarrow> tree
     \<Rightarrow> tree \<times> action list \<times> request list" where
  "commit stringify parse pr t =
     (let p0 = parent t;
          first = (\<not> mounted t);
          active_changed = (first \<or> prop_isSessionActive pr \<noteq> isSessionActive p0);
          send_changed = (first \<or> prop_sendClientEvent pr \<noteq> dep_sendClientEvent t);
          added_changed = (first \<or> functionAdded p0 \<noteq> dep_functionAdded t);
          events_changed = (first \<or> prop_events_id pr \<noteq> dep_events t);
          below = reconcile_child parse pr (functionCallOutput p0) (child t);
          p1 = p0\<lparr> isSessionActive := prop_isSessionActive pr \<rparr>;
          e1 = (if active_changed \<or> added_changed \<or> send_changed
                then configuration_effect p1 else (p1, []));
          e2 = (if events_changed
                then events_effect stringify (prop_events pr) (fst e1) else (fst e1, []));
          e3 = (if active_changed then reset_effect (fst e2) else (fst e2, []))
      in (\<lparr> mounted = True, parent = fst e3,
            dep_sendClientEvent = prop_sendClientEvent pr,
            dep_events = prop_events_id pr,
            dep_functionAdded = functionAdded p0,
            child = fst below \<rparr>,
          snd e1 @ snd e2 @ snd e3,
          snd below))"

text \<open>
  A render with new properties: the commit and, when an effect changed a state variable,
  the commit of the render that this change triggers, with the same properties.
\<close>

definition render ::
  "(output \<Rightarrow> string) \<Rightarrow> (string \<Rightarrow> jsval option) \<Rightarrow> props \<Rightarrow> tree
     \<Rightarrow> tree \<times> action list \<times> request list" where
  "render stringify parse pr t =
     (case commit stringify parse pr t of
        (t1, log1, requests1) \<Rightarrow>
          if functionAdded (parent t1) = functionAdded (parent t)
             \<and> functionCallOutput (parent t1) = functionCallOutput (parent t)
          then (t1, log1, requests1)
          else (case commit stringify parse pr t1 of
                  (t2, log2, requests2) \<Rightarrow> (t2, log1 @ log2, requests1 @ requests2)))"

fun render_all ::
  "(output \<Rightarrow> string) \<Rightarrow> (string \<Rightarrow> jsval option) \<Rightarrow> props list \<Rightarrow> tree
     \<Rightarrow> tree \<times> action list \<times> request list" where
  "render_all stringify parse [] t = (t, [], [])"
| "render_all stringify parse (pr # prs) t =
     (case render stringify parse pr t of
        (t1, log1, requests1) \<Rightarrow>
          (case render_all stringify parse prs t1 of
             (t2, log2, requests2) \<Rightarrow> (t2, log1 @ log2, requests1 @ requests2)))"

text \<open>The requests that a sequence of renders posts to the executor.\<close>

definition executions ::
  "(output \<Rightarrow> string) \<Rightarrow> (string \<Rightarrow> jsval option) \<Rightarrow> props list \<Rightarrow> tree \<Rightarrow> request list" where
  "executions stringify parse prs t = snd (snd (render_all stringify parse prs t))"

subsection \<open>The panel and the server\<close>

text \<open>
  The panel in the browser and the server. A signal runs the effects of the panel, which
  send no request to the server (the requests of the component below the panel are those
  of \<open>render\<close>); a request to \<^verbatim>\<open>/function\<close> runs a handler.
\<close>

record system =
  front :: panel
  backend :: server

datatype step = Signal signal | Request operation clock jsval

fun system_step :: "(output \<Rightarrow> string) \<Rightarrow> (jsval \<Rightarrow> string) \<Rightarrow> step \<Rightarrow> system \<Rightarrow> system" where
  "system_step so sa (Signal sg) sys = sys\<lparr> front := fst (panel_step so sg (front sys)) \<rparr>"
| "system_step so sa (Request opn clk args) sys =
     sys\<lparr> backend := snd (patentFunctions sa opn clk args (backend sys)) \<rparr>"

section \<open>Auxiliary notions for the statements\<close>

text \<open>A handler call succeeded when it returned an object with \<^verbatim>\<open>success: true\<close>.\<close>

definition succeeded :: "js_error + result \<Rightarrow> bool" where
  "succeeded out = (case out of Inl e \<Rightarrow> False | Inr r \<Rightarrow> success r = Some True)"

text \<open>
  The storage accepts a session directory \<open>p\<close> when neither \<open>p\<close> nor an ancestor of it is
  a regular file and \<^verbatim>\<open>main.md\<close> inside it is not a directory: then \<open>mkdirSync\<close> and
  \<open>writeFileSync\<close> of \<open>create_template\<close> do not throw.
\<close>

definition storage_accepts :: "path \<Rightarrow> filesystem \<Rightarrow> bool" where
  "storage_accepts p fsys =
     ((\<forall>q \<in> set (prefixes p). \<not> is_file (fsys q)) \<and> fsys (p @ [''main.md'']) \<noteq> Some Dir)"

text \<open>The key that \<open>checkDuplicate\<close> computes.\<close>

definition ledger_key :: "(jsval \<Rightarrow> string) \<Rightarrow> string \<Rightarrow> jsval \<Rightarrow> string" where
  "ledger_key stringify operation args = operation @ ''-'' @ stringify args"

text \<open>A server that has just started in an empty directory, and a serializer that writes JSON
  text without escapes, for examples.\<close>

definition demo_server :: server where
  "demo_server = \<lparr> cwd = [''srv''], currentSession = None, recentOperations = [],
                    fs = (\<lambda>p. None) \<rparr>"

fun demo_json :: "jsval \<Rightarrow> string"
  and demo_members :: "(string \<times> jsval) list \<Rightarrow> string"
  and demo_items :: "jsval list \<Rightarrow> string" where
  "demo_json JUndefined = ''undefined''"
| "demo_json JNull = ''null''"
| "demo_json (JBool b) = (if b then ''true'' else ''false'')"
| "demo_json (JNum t) = t"
| "demo_json (JStr s) = dquote @ s @ dquote"
| "demo_json (JArr xs) = ''['' @ demo_items xs @ '']''"
| "demo_json (JObj ms) = ''{'' @ demo_members ms @ ''}''"
| "demo_members [] = []"
| "demo_members [(k, v)] = dquote @ k @ dquote @ '':'' @ demo_json v"
| "demo_members ((k, v) # m # ms) = dquote @ k @ dquote @ '':'' @ demo_json v @ '','' @ demo_members (m # ms)"
| "demo_items [] = []"
| "demo_items [v] = demo_json v"
| "demo_items (v # w # ws) = demo_json v @ '','' @ demo_items (w # ws)"

definition widget_args :: jsval where
  "widget_args = JObj [(''title'', JStr ''Widget'')]"

text \<open>
  A history of \<open>checkDuplicate\<close> calls, each an operation name, an argument value and the
  clock reading of the call, run from the empty ledger of a fresh server. The first
  component collects, in call order, the key and time of every call that was not
  suppressed; the second is the ledger.
\<close>

definition check_step ::
  "(jsval \<Rightarrow> string) \<Rightarrow> (string \<times> int) list \<times> (string \<times> int) list \<Rightarrow> string \<times> jsval \<times> int
     \<Rightarrow> (string \<times> int) list \<times> (string \<times> int) list" where
  "check_step stringify acc call =
     (case acc of (log, ops) \<Rightarrow> case call of (operation, args, now) \<Rightarrow>
        (case checkDuplicate stringify operation args now 2000 ops of
           (True, ops') \<Rightarrow> (log, ops')
         | (False, ops') \<Rightarrow> (log @ [(ledger_key stringify operation args, now)], ops')))"

definition check_all ::
  "(jsval \<Rightarrow> string) \<Rightarrow> (string \<times> jsval \<times> int) list \<Rightarrow> (string \<times> int) list \<times> (string \<times> int) list" where
  "check_all stringify calls = foldl (check_step stringify) ([], []) calls"

text \<open>
  The ledger has one entry per key, every entry is the key and time of a call that was
  not suppressed, and the time stored for a key is that of the last such call.
\<close>

definition ledger_inv :: "(string \<times> int) list \<Rightarrow> (string \<times> int) list \<Rightarrow> bool" where
  "ledger_inv log ops =
     (distinct (map fst ops) \<and> set ops \<subseteq> set log \<and>
      (\<forall>k t. map_of ops k = Some t \<longrightarrow> map_of (rev log) k = Some t))"

text \<open>A clock whose every reading is the same millisecond.\<close>

definition fixed_clock :: "int \<Rightarrow> clock" where
  "fixed_clock t k = t"

text \<open>A server in whose working directory \<^verbatim>\<open>patents\<close> is a regular file.\<close>

definition blocked_server :: server where
  "blocked_server = demo_server\<lparr> fs := [[''srv'', ''patents''] \<mapsto> File []] \<rparr>"

text \<open>
  Sequential \<open>send_user_response\<close> calls, each with its clock and its message text; the
  outcomes are collected in call order.
\<close>

fun send_all :: "(clock \<times> string) list \<Rightarrow> server \<Rightarrow> (js_error + result) list \<times> server" where
  "send_all [] st = ([], st)"
| "send_all ((clk, m) # ms) st =
     (case send_user_response clk (JObj [(''message'', JStr m)]) st of
        (out, st') \<Rightarrow> (case send_all ms st' of (outs, st'') \<Rightarrow> (out # outs, st'')))"

text \<open>
  The active session has directory \<open>p\<close> and its \<^verbatim>\<open>main.md\<close> is a regular file with
  text \<open>c\<close>.
\<close>

definition has_document :: "server \<Rightarrow> path \<Rightarrow> string \<Rightarrow> bool" where
  "has_document st p c =
     (case currentSession st of
        None \<Rightarrow> False
      | Some s \<Rightarrow> path s = p \<and> fs st p = Some Dir \<and> fs st (p @ [''main.md'']) = Some (File c))"

text \<open>
  Sequential \<open>createPatentSession\<close> calls, each with its clock and title; a call that
  throws leaves the state as it was. The outcomes are collected in call order.
\<close>

fun start_all :: "(clock \<times> jsval) list \<Rightarrow> server \<Rightarrow> (js_error + session) list \<times> server" where
  "start_all [] st = ([], st)"
| "start_all ((clk, ttl) # cs) st =
     (case createPatentSession clk ttl st of
        Inl e \<Rightarrow> (case start_all cs st of (outs, st') \<Rightarrow> (Inl e # outs, st'))
      | Inr (s, st1) \<Rightarrow> (case start_all cs st1 of (outs, st') \<Rightarrow> (Inr s # outs, st')))"

text \<open>
  A serializer of outputs, function calls (the third has the content of the first and is
  another object), a parser that knows the empty object only, an event and two panels, for
  examples.
\<close>

definition demo_output_json :: "output \<Rightarrow> string" where
  "demo_output_json out = ''{'' @ dquote @ ''type'' @ dquote @ '':'' @ dquote @ otype out @ dquote
     @ '','' @ dquote @ ''name'' @ dquote @ '':'' @ dquote @ name out @ dquote
     @ '','' @ dquote @ ''arguments'' @ dquote @ '':'' @ dquote @ arguments out @ dquote
     @ '','' @ dquote @ ''call_id'' @ dquote @ '':'' @ dquote @ call_id out @ dquote @ ''}''"

definition call_display :: "output" where
  "call_display = \<lparr> oid = 1, otype = ''function_call'', name = ''display_patent'',
                     arguments = ''{}'', call_id = ''call_1'' \<rparr>"

definition call_export :: "output" where
  "call_export = \<lparr> oid = 2, otype = ''function_call'', name = ''export_as_pdf'',
                    arguments = ''{}'', call_id = ''call_2'' \<rparr>"


definition demo_parse :: "string \<Rightarrow> jsval option" where
  "demo_parse text = (if text = ''{}'' then Some (JObj []) else None)"

definition other_event :: event where
  "other_event = \<lparr> etype = ''response.audio.delta'', response = None \<rparr>"

definition idle_panel :: panel where
  "idle_panel = \<lparr> isSessionActive = False, functionAdded = False, functionCallOutput = None,
                   lastFunctionCallRef = None \<rparr>"

text \<open>The outputs an event carries.\<close>

definition event_outputs :: "event \<Rightarrow> output list" where
  "event_outputs e =
     (case response e of
        None \<Rightarrow> []
      | Some r \<Rightarrow> (case outputs r of None \<Rightarrow> [] | Some outs \<Rightarrow> outs))"

definition busy_panel :: panel where
  "busy_panel = \<lparr> isSessionActive = True, functionAdded = True,
                   functionCallOutput = Some call_display,
                   lastFunctionCallRef = Some (demo_output_json call_display) \<rparr>"

definition busy_server :: server where
  "busy_server = snd (create_template demo_json (fixed_clock 1000) widget_args demo_server)"

definition busy_system :: system where
  "busy_system = \<lparr> front = busy_panel, backend = busy_server \<rparr>"

text \<open>An argument object whose title is an object with an own property \<^verbatim>\<open>toString\<close>.\<close>

definition opaque_args :: jsval where
  "opaque_args = JObj [(''title'', JObj [(''toString'', JNum ''1'')])]"

text \<open>Renders with the given properties, all with the same \<^verbatim>\<open>sendClientEvent\<close>.\<close>

definition demo_props :: "bool \<Rightarrow> nat \<Rightarrow> event list \<Rightarrow> props" where
  "demo_props active n evs =
     \<lparr> prop_isSessionActive = active, prop_sendClientEvent = 0, prop_events_id = n,
       prop_events = Some evs \<rparr>"

text \<open>The function calls that a sequence of renders hands over to the child component.\<close>

definition handovers ::
  "(output \<Rightarrow> string) \<Rightarrow> (string \<Rightarrow> jsval option) \<Rightarrow> props list \<Rightarrow> tree \<Rightarrow> output list" where
  "handovers stringify parse prs t = delivered (fst (snd (render_all stringify parse prs t)))"





text \<open>
  The properties of a render of an active session whose \<^verbatim>\<open>sendClientEvent\<close> is \<open>c\<close> and
  whose event list, with the identity \<open>i\<close>, has a \<^verbatim>\<open>response.done\<close> event with the outputs
  \<open>outs\<close> in front of the events \<open>older\<close>.
\<close>

definition arrival :: "nat \<Rightarrow> nat \<Rightarrow> output list \<Rightarrow> event list \<Rightarrow> props" where
  "arrival c i outs older =
     \<lparr> prop_isSessionActive = True, prop_sendClientEvent = c, prop_events_id = i,
       prop_events = Some (response_done outs # older) \<rparr>"

text \<open>The request that executes the demonstration call \<^verbatim>\<open>display_patent\<close>.\<close>

definition display_request :: request where
  "display_request = \<lparr> req_name = ''display_patent'', req_arguments = JObj [] \<rparr>"

definition export_request :: request where
  "export_request = \<lparr> req_name = ''export_as_pdf'', req_arguments = JObj [] \<rparr>"

text \<open>The tree after the first render of an active session with no events.\<close>

definition started :: tree where
  "started = fst (render demo_output_json demo_parse (demo_props True 0 []) unmounted)"

section \<open>Properties of the duplicate ledger\<close>

lemma checkDuplicate_suppress:
  assumes "map_of ops (ledger_key s opn a) = Some t" and "t \<noteq> 0" and "now - t < w"
  shows "checkDuplicate s opn a now w ops = (True, ops)"
  using assms by (simp add: checkDuplicate_def ledger_key_def)

lemma checkDuplicate_pass:
  assumes "\<not> fst (checkDuplicate s opn a now w ops)"
  shows "checkDuplicate s opn a now w ops =
           (False, filter (\<lambda>(k, time). \<not> now - time > w) (AList.update (ledger_key s opn a) now ops))"
  using assms by (simp add: checkDuplicate_def ledger_key_def Let_def split: if_splits)

lemma checkDuplicate_elapsed:
  assumes "map_of ops (ledger_key s opn a) = Some t" and "w \<le> now - t"
  shows "\<not> fst (checkDuplicate s opn a now w ops)"
  using assms by (simp add: checkDuplicate_def ledger_key_def)

lemma checkDuplicate_records:
  assumes "checkDuplicate s opn a now w ops = (False, ops')" and "0 \<le> w"
  shows "map_of ops' (ledger_key s opn a) = Some now"
proof -
  have ops': "ops' = filter (\<lambda>(k, time). \<not> now - time > w) (AList.update (ledger_key s opn a) now ops)"
    using assms(1) checkDuplicate_pass[of s opn a now w ops] by simp
  have "map_of (AList.update (ledger_key s opn a) now ops) (ledger_key s opn a) = Some now"
    by (simp add: update_conv')
  then show ?thesis
    unfolding ops' using assms(2) by (intro map_of_filter_in) auto
qed

lemma mkdirSync_accepts:
  assumes "\<forall>q \<in> set (prefixes p). \<not> is_file (fsys q)"
  shows "mkdirSync p fsys = Inr (\<lambda>q. if q \<in> set (prefixes p) then Some Dir else fsys q)"
proof -
  have "find (\<lambda>q. is_file (fsys q)) (prefixes p) = None"
    using assms by (simp add: find_None_iff)
  then show ?thesis by (simp add: mkdirSync_def)
qed

lemma initialMd_converts:
  "initialMd ttl = Inr md \<Longrightarrow> \<exists>t. to_string ttl = Inr t"
  by (cases "to_string ttl") (simp_all add: initialMd_def)

lemma initialMd_text:
  "to_string ttl = Inr t \<Longrightarrow>
     initialMd ttl = Inr (''# '' @ t @ ''\<newline>\<newline>## Abstract\<newline>[Brief summary of the invention]\<newline>\<newline>## Background\<newline>[Context and existing solutions]\<newline>\<newline>## Summary\<newline>[Overview of the invention]\<newline>\<newline>## Detailed Description\<newline>[Complete technical details]\<newline>\<newline>## Claims\<newline>[Legal claims of the patent]\<newline>'')"
  by (simp add: initialMd_def newline_def)

lemma create_template_executes:
  assumes pass: "checkDuplicate s ''create_template'' (JObj a) (clk 0) 2000 (recentOperations st) = (False, ops')"
    and store: "storage_accepts (cwd st @ [''patents'', number_toString (clk 1)]) (fs st)"
    and skel: "initialMd (case map_of a ''title'' of None \<Rightarrow> JUndefined | Some v \<Rightarrow> v) = Inr md"
    and run: "create_template s clk (JObj a) st = (out, st')"
  shows "succeeded out"
    and "recentOperations st' = ops'"
    and "cwd st' = cwd st"
    and "fs st' (cwd st @ [''patents'', number_toString (clk 1), ''main.md'']) = Some (File md)"
proof -
  let ?p = "cwd st @ [''patents'', number_toString (clk 1)]"
  let ?dirs = "\<lambda>q. if q \<in> set (prefixes ?p) then Some Dir else fs st q"
  let ?ttl = "case map_of a ''title'' of None \<Rightarrow> JUndefined | Some v \<Rightarrow> v"
  obtain t where conv: "to_string ?ttl = Inr t"
    using initialMd_converts[OF skel] by blast
  have mk: "mkdirSync ?p (fs st) = Inr ?dirs"
    using store by (intro mkdirSync_accepts) (simp add: storage_accepts_def)
  have notdir: "?dirs (?p @ [''main.md'']) \<noteq> Some Dir"
    using store by (simp add: storage_accepts_def)
  have parent: "?dirs (butlast (?p @ [''main.md''])) = Some Dir"
    by (simp add: butlast_append)
  have wr: "writeFileSync (?p @ [''main.md'']) md ?dirs = Inr (?dirs(?p @ [''main.md''] \<mapsto> File md))"
    using notdir parent unfolding writeFileSync_def
    by (cases "?dirs (?p @ [''main.md''])") (auto split: node.splits simp del: prefixes_snoc)
  show "succeeded out" "recentOperations st' = ops'" "cwd st' = cwd st"
    "fs st' (cwd st @ [''patents'', number_toString (clk 1), ''main.md'']) = Some (File md)"
    using run pass mk wr skel conv
    by (auto simp add: create_template_def createPatentSession_def Let_def succeeded_def simp del: prefixes_snoc)
qed

lemma checkDuplicate_unchanged:
  "checkDuplicate s opn a now w ops = (True, ops') \<Longrightarrow> ops' = ops"
  by (simp add: checkDuplicate_def Let_def split: if_splits)

lemma checkDuplicate_purged:
  "checkDuplicate s opn a now w ops = (False, ops') \<Longrightarrow>
     ops' = filter (\<lambda>(k, time). \<not> now - time > w) (AList.update (ledger_key s opn a) now ops)"
  using checkDuplicate_pass[of s opn a now w ops] by simp

lemma set_update_subset: "set (AList.update k v al) \<subseteq> insert (k, v) (set al)"
  by (induction al) auto

lemma ledger_inv_step:
  assumes "ledger_inv log ops" and "check_step s (log, ops) c = (log', ops')"
  shows "ledger_inv log' ops'"
proof -
  obtain opn a now where c: "c = (opn, a, now)" by (cases c)
  obtain d ops1 where chk: "checkDuplicate s opn a now 2000 ops = (d, ops1)"
    by (cases "checkDuplicate s opn a now 2000 ops")
  show ?thesis
  proof (cases d)
    case True
    then have "ops1 = ops" using chk checkDuplicate_unchanged[of s opn a now 2000 ops ops1] by simp
    then show ?thesis using assms True chk c by (simp add: check_step_def)
  next
    case False
    let ?key = "ledger_key s opn a"
    let ?upd = "AList.update ?key now ops"
    have ops1: "ops1 = filter (\<lambda>(k, time). \<not> now - time > 2000) ?upd"
      using chk False checkDuplicate_purged[of s opn a now 2000 ops ops1] by simp
    have res: "log' = log @ [(?key, now)]" "ops' = ops1"
      using assms(2) chk False c by (simp_all add: check_step_def)
    have d_upd: "distinct (map fst ?upd)"
      using assms(1) by (simp add: ledger_inv_def distinct_update)
    have d1: "distinct (map fst ops1)"
      unfolding ops1 using d_upd by (simp add: distinct_map_filter)
    have sub: "set ops1 \<subseteq> set log'"
      unfolding ops1 res using set_update_subset[of ?key now ops] assms(1)
      by (auto simp add: ledger_inv_def)
    have look: "map_of (rev log') k = Some t" if "map_of ops1 k = Some t" for k t
    proof -
      have "(k, t) \<in> set ?upd" using that map_of_SomeD unfolding ops1 by fastforce
      then have m: "map_of ?upd k = Some t" using d_upd by simp
      show ?thesis
      proof (cases "k = ?key")
        case True
        then show ?thesis using m by (simp add: res update_conv')
      next
        case False
        then have "map_of ops k = Some t" using m by (simp add: update_conv')
        then show ?thesis using assms(1) False by (simp add: res ledger_inv_def)
      qed
    qed
    show ?thesis using d1 sub look unfolding ledger_inv_def res(2) by blast
  qed
qed

lemma ledger_inv_foldl:
  assumes "ledger_inv log ops" and "foldl (check_step s) (log, ops) cs = (log', ops')"
  shows "ledger_inv log' ops'"
  using assms
proof (induction cs arbitrary: log ops)
  case Nil
  then show ?case by simp
next
  case (Cons c cs)
  obtain l1 o1 where st: "check_step s (log, ops) c = (l1, o1)"
    by (cases "check_step s (log, ops) c")
  have "ledger_inv l1 o1" using ledger_inv_step[OF Cons.prems(1) st] .
  then show ?case using Cons.IH[of l1 o1] Cons.prems(2) st by simp
qed

lemma ledger_inv_check_all:
  "check_all s cs = (log, ops) \<Longrightarrow> ledger_inv log ops"
  unfolding check_all_def
  by (rule ledger_inv_foldl[of "[]" "[]"]) (simp_all add: ledger_inv_def)



section \<open>Template creation inside and outside the suppression window\<close>

text \<open>
  Claim C1, as stated: for every argument object the first call returns \<^verbatim>\<open>success: true\<close>
  and creates the document. It fails for the argument object \<^verbatim>\<open>{"title": {"toString": 1}}\<close>:
  the template literal cannot convert the title to a string and throws inside the
  \<^verbatim>\<open>try\<close>, so the first call returns \<^verbatim>\<open>{success: false, error: ...}\<close> and no
  \<^verbatim>\<open>main.md\<close> is written.
\<close>

theorem unconvertible_title_creates_nothing_counterexample:
  "fst (create_template demo_json (fixed_clock 1000) opaque_args demo_server)
     = Inr (caught_result cannot_convert)
   \<and> success (caught_result cannot_convert) = Some False
   \<and> fs (snd (create_template demo_json (fixed_clock 1000) opaque_args demo_server))
        [''srv'', ''patents'', ''1000'', ''main.md''] = None"
  by code_simp

text \<open>
  Claim C1, amended. Let a \<open>create_template\<close> call with an argument object whose title
  converts to a string execute (it is not itself suppressed and the storage accepts its
  session directory) at a nonzero time. Then it returns \<^verbatim>\<open>success: true\<close> and writes the
  document; the identical call less than 2000 ms after it returns
  \<^verbatim>\<open>{success: false, message: "Duplicate operation prevented"}\<close> and leaves the server state
  as it was; the identical call 2000 ms or more after the executed one executes and
  succeeds again.
\<close>

theorem create_template_duplicate_window:
  assumes fresh: "\<not> fst (checkDuplicate stringify ''create_template'' (JObj a) (clk1 0) 2000
                        (recentOperations st))"
    and store1: "storage_accepts (cwd st @ [''patents'', number_toString (clk1 1)]) (fs st)"
    and conv: "to_string (case map_of a ''title'' of None \<Rightarrow> JUndefined | Some v \<Rightarrow> v) = Inr t"
    and first: "create_template stringify clk1 (JObj a) st = (out1, st1)"
    and epoch: "clk1 0 \<noteq> 0"
    and within: "clk2 0 - clk1 0 < 2000"
    and later: "2000 \<le> clk3 0 - clk1 0"
    and store3: "storage_accepts (cwd st1 @ [''patents'', number_toString (clk3 1)]) (fs st1)"
  shows "succeeded out1
       \<and> fs st1 (cwd st @ [''patents'', number_toString (clk1 1), ''main.md''])
           = Some (File (''# '' @ t @ ''\<newline>\<newline>## Abstract\<newline>[Brief summary of the invention]\<newline>\<newline>## Background\<newline>[Context and existing solutions]\<newline>\<newline>## Summary\<newline>[Overview of the invention]\<newline>\<newline>## Detailed Description\<newline>[Complete technical details]\<newline>\<newline>## Claims\<newline>[Legal claims of the patent]\<newline>''))
       \<and> create_template stringify clk2 (JObj a) st1 = (Inr duplicate_result, st1)
       \<and> succeeded (fst (create_template stringify clk3 (JObj a) st1))"
proof -
  note skel = initialMd_text[OF conv]
  obtain ops1 where pass1:
    "checkDuplicate stringify ''create_template'' (JObj a) (clk1 0) 2000 (recentOperations st)
       = (False, ops1)"
    using fresh by (cases "checkDuplicate stringify ''create_template'' (JObj a) (clk1 0) 2000
                            (recentOperations st)") simp
  note ex1 = create_template_executes[OF pass1 store1 skel first]
  have entry: "map_of (recentOperations st1) (ledger_key stringify ''create_template'' (JObj a))
                 = Some (clk1 0)"
    using checkDuplicate_records[OF pass1] ex1(2) by simp
  have dup: "checkDuplicate stringify ''create_template'' (JObj a) (clk2 0) 2000
               (recentOperations st1) = (True, recentOperations st1)"
    using entry epoch within by (rule checkDuplicate_suppress)
  have second: "create_template stringify clk2 (JObj a) st1 = (Inr duplicate_result, st1)"
    by (simp add: create_template_def dup)
  have "\<not> fst (checkDuplicate stringify ''create_template'' (JObj a) (clk3 0) 2000
                 (recentOperations st1))"
    using entry later by (rule checkDuplicate_elapsed)
  then obtain ops3 where pass3:
    "checkDuplicate stringify ''create_template'' (JObj a) (clk3 0) 2000 (recentOperations st1)
       = (False, ops3)"
    by (cases "checkDuplicate stringify ''create_template'' (JObj a) (clk3 0) 2000
                 (recentOperations st1)") simp
  have third: "succeeded (fst (create_template stringify clk3 (JObj a) st1))"
    using create_template_executes(1)[OF pass3 store3 skel] by (metis prod.collapse)
  show ?thesis using ex1(1) ex1(4) second third by simp
qed

theorem create_template_duplicate_window_witness:
  "succeeded (fst (create_template demo_json (fixed_clock 1000) widget_args demo_server))
   \<and> fs (snd (create_template demo_json (fixed_clock 1000) widget_args demo_server))
        [''srv'', ''patents'', ''1000'', ''main.md'']
      = Some (File (''# Widget'' @ ''\<newline>\<newline>## Abstract\<newline>[Brief summary of the invention]\<newline>\<newline>## Background\<newline>[Context and existing solutions]\<newline>\<newline>## Summary\<newline>[Overview of the invention]\<newline>\<newline>## Detailed Description\<newline>[Complete technical details]\<newline>\<newline>## Claims\<newline>[Legal claims of the patent]\<newline>''))
   \<and> create_template demo_json (fixed_clock 2500) widget_args
        (snd (create_template demo_json (fixed_clock 1000) widget_args demo_server))
      = (Inr duplicate_result,
         snd (create_template demo_json (fixed_clock 1000) widget_args demo_server))
   \<and> succeeded (fst (create_template demo_json (fixed_clock 3100) widget_args
        (snd (create_template demo_json (fixed_clock 1000) widget_args demo_server))))"
proof -
  let ?a = "[(''title'', JStr ''Widget'')]"
  let ?r1 = "create_template demo_json (fixed_clock 1000) (JObj ?a) demo_server"
  have h1: "\<not> fst (checkDuplicate demo_json ''create_template'' (JObj ?a) (fixed_clock 1000 0) 2000
                        (recentOperations demo_server))"
    by code_simp
  have h2: "storage_accepts (cwd demo_server @ [''patents'', number_toString (fixed_clock 1000 1)])
              (fs demo_server)"
    by code_simp
  have hc: "to_string (case map_of ?a ''title'' of None \<Rightarrow> JUndefined | Some v \<Rightarrow> v)
              = Inr ''Widget''"
    by simp
  have h3: "?r1 = (fst ?r1, snd ?r1)"
    by simp
  have h4: "fixed_clock 1000 0 \<noteq> 0" "fixed_clock 2500 0 - fixed_clock 1000 0 < 2000"
    "2000 \<le> fixed_clock 3100 0 - fixed_clock 1000 0"
    by (simp_all add: fixed_clock_def)
  have h7: "storage_accepts (cwd (snd ?r1) @ [''patents'', number_toString (fixed_clock 3100 1)])
              (fs (snd ?r1))"
    by code_simp
  have p: "cwd demo_server @ [''patents'', number_toString (fixed_clock 1000 1), ''main.md'']
             = [''srv'', ''patents'', ''1000'', ''main.md'']"
    by code_simp
  show ?thesis
    using create_template_duplicate_window[where stringify=demo_json and a="?a"
        and ?clk1.0="fixed_clock 1000" and ?clk2.0="fixed_clock 2500"
        and ?clk3.0="fixed_clock 3100" and st=demo_server, OF h1 h2 hc h3 h4 h7]
    unfolding p by (simp add: widget_args_def)
qed



section \<open>Eviction from the ledger\<close>

text \<open>
  Claim C8, as stated: every invocation of the check purges the entries older than the
  window. It fails for a suppressed invocation, which returns before the clean-up: after
  \<open>resume_patent_creation\<close> at 1000 and \<open>create_template\<close> at 2900, the repeated
  \<open>create_template\<close> at 3100 is suppressed and the entry of time 1000, then 2100 ms old,
  is still in the ledger.
\<close>

theorem suppressed_check_keeps_stale_entry_counterexample:
  "checkDuplicate demo_json ''create_template'' widget_args 3100 2000
     (snd (checkDuplicate demo_json ''create_template'' widget_args 2900 2000
        (snd (checkDuplicate demo_json ''resume_patent_creation'' (JObj []) 1000 2000 []))))
   = (True, [(''resume_patent_creation-{}'', 1000),
             (ledger_key demo_json ''create_template'' widget_args, 2900)])
   \<and> (3100::int) - 1000 > 2000"
  by code_simp

text \<open>
  Claim C8, amended. A suppressed check leaves the ledger as it is. A check that does not
  suppress records its key and keeps exactly the entries that are at most 2000 ms old, so
  the ledger then has at most as many entries as there are distinct keys recorded by
  calls that were not suppressed in the trailing 2000 ms.
\<close>

theorem executed_check_purges_ledger:
  assumes run: "check_all s cs = (log, ops)"
    and chk: "checkDuplicate s opn a now 2000 ops = (d, ops')"
  shows "(d \<longrightarrow> ops' = ops)
       \<and> (\<not> d \<longrightarrow>
            set ops' = {(k, t). (k, t) \<in> set (AList.update (ledger_key s opn a) now ops) \<and> now - t \<le> 2000}
          \<and> length ops' \<le> card {k. \<exists>t. (k, t) \<in> set (log @ [(ledger_key s opn a, now)]) \<and> now - t \<le> 2000})"
proof (cases d)
  case True
  then show ?thesis using chk checkDuplicate_unchanged[of s opn a now 2000 ops ops'] by simp
next
  case False
  let ?key = "ledger_key s opn a"
  let ?log' = "log @ [(?key, now)]"
  let ?seen = "{k. \<exists>t. (k, t) \<in> set ?log' \<and> now - t \<le> 2000}"
  have ops': "ops' = filter (\<lambda>(k, time). \<not> now - time > 2000) (AList.update ?key now ops)"
    using chk False checkDuplicate_purged[of s opn a now 2000 ops ops'] by simp
  have exact: "set ops' = {(k, t). (k, t) \<in> set (AList.update ?key now ops) \<and> now - t \<le> 2000}"
    unfolding ops' by auto
  have step: "check_step s (log, ops) (opn, a, now) = (?log', ops')"
    using chk False by (simp add: check_step_def)
  have inv: "ledger_inv ?log' ops'"
    using ledger_inv_step[OF ledger_inv_check_all[OF run] step] .
  have fin: "finite ?seen"
    by (rule finite_subset[of _ "fst ` set ?log'"]) force+
  have "fst ` set ops' \<subseteq> ?seen"
  proof
    fix k assume "k \<in> fst ` set ops'"
    then obtain t where kt: "(k, t) \<in> set ops'" by auto
    then have "(k, t) \<in> set ?log'" using inv unfolding ledger_inv_def by blast
    moreover have "now - t \<le> 2000" using kt exact by auto
    ultimately show "k \<in> ?seen" by blast
  qed
  then have "card (fst ` set ops') \<le> card ?seen" using fin by (rule card_mono[rotated])
  moreover have "card (fst ` set ops') = length ops'"
    using inv distinct_card[of "map fst ops'"] by (simp add: ledger_inv_def)
  ultimately show ?thesis using False exact by simp
qed

theorem executed_check_purges_ledger_witness:
  "snd (checkDuplicate demo_json ''create_template'' widget_args 5000 2000
          (snd (check_all demo_json [(''resume_patent_creation'', JObj [], 1000)])))
     = [(ledger_key demo_json ''create_template'' widget_args, 5000)]"
proof -
  let ?cs = "[(''resume_patent_creation'', JObj [], 1000)]"
  have h1: "check_all demo_json ?cs = (fst (check_all demo_json ?cs), snd (check_all demo_json ?cs))"
    by simp
  have h2: "checkDuplicate demo_json ''create_template'' widget_args 5000 2000 (snd (check_all demo_json ?cs))
            = (False, [(ledger_key demo_json ''create_template'' widget_args, 5000)])"
    by code_simp
  show ?thesis
    using executed_check_purges_ledger[OF h1 h2] h2 by simp
qed


section \<open>Suppressed calls do not extend the window\<close>

text \<open>
  Claim C9. In the ledger reached by any history of checks, a suppressed check changes
  nothing (its entry is not refreshed), the time stored for a key is the time of the last
  call with that key that was not suppressed, and a call that comes 2000 ms or more after
  that last executed call (or whose key was never executed) is not suppressed, whatever
  suppressed calls came in between.
\<close>

theorem suppressed_check_does_not_refresh:
  assumes run: "check_all s cs = (log, ops)"
    and last: "\<forall>t. map_of (rev log) (ledger_key s opn a) = Some t \<longrightarrow> 2000 \<le> now - t"
  shows "(\<forall>now'. fst (checkDuplicate s opn a now' 2000 ops) \<longrightarrow>
              check_step s (log, ops) (opn, a, now') = (log, ops))
       \<and> (\<forall>t. map_of ops (ledger_key s opn a) = Some t \<longrightarrow>
              map_of (rev log) (ledger_key s opn a) = Some t)
       \<and> \<not> fst (checkDuplicate s opn a now 2000 ops)"
proof -
  have inv: "ledger_inv log ops" using ledger_inv_check_all[OF run] .
  have keep: "check_step s (log, ops) (opn, a, now') = (log, ops)"
    if "fst (checkDuplicate s opn a now' 2000 ops)" for now'
  proof -
    have e: "checkDuplicate s opn a now' 2000 ops
               = (True, snd (checkDuplicate s opn a now' 2000 ops))"
      using that by (simp add: prod_eq_iff)
    then show ?thesis
      using checkDuplicate_unchanged[OF e] by (simp add: check_step_def)
  qed
  have entry: "map_of (rev log) (ledger_key s opn a) = Some t"
    if "map_of ops (ledger_key s opn a) = Some t" for t
    using inv that unfolding ledger_inv_def by blast
  have "\<not> fst (checkDuplicate s opn a now 2000 ops)"
  proof (cases "map_of ops (ledger_key s opn a)")
    case None
    then show ?thesis by (simp add: checkDuplicate_def ledger_key_def)
  next
    case (Some t)
    then have "2000 \<le> now - t" using entry last by blast
    then show ?thesis using Some by (intro checkDuplicate_elapsed)
  qed
  then show ?thesis using keep entry by blast
qed

theorem suppressed_check_does_not_refresh_witness:
  "\<not> fst (checkDuplicate demo_json ''create_template'' widget_args 3000 2000
        (snd (check_all demo_json
           [(''create_template'', widget_args, 1000),
            (''create_template'', widget_args, 1500),
            (''create_template'', widget_args, 2900)])))"
proof -
  let ?cs = "[(''create_template'', widget_args, 1000),
              (''create_template'', widget_args, 1500),
              (''create_template'', widget_args, 2900)]"
  have h1: "check_all demo_json ?cs
              = ([(ledger_key demo_json ''create_template'' widget_args, 1000)],
                 snd (check_all demo_json ?cs))"
    by code_simp
  have h2: "\<forall>t. map_of (rev [(ledger_key demo_json ''create_template'' widget_args, 1000)])
                  (ledger_key demo_json ''create_template'' widget_args) = Some t
               \<longrightarrow> 2000 \<le> (3000::int) - t"
    by simp
  show ?thesis
    using suppressed_check_does_not_refresh[OF h1 h2] by simp
qed



section \<open>Fields of the result objects\<close>

text \<open>
  Claim C4, as stated: every returned result object has a \<^verbatim>\<open>message\<close> string. It fails on
  the \<^verbatim>\<open>catch\<close> branch of \<open>create_template\<close>: where \<^verbatim>\<open>patents\<close> is a regular file,
  \<open>mkdirSync\<close> throws and the handler returns \<^verbatim>\<open>{success: false, error: ...}\<close>, an
  object without a \<^verbatim>\<open>message\<close> field.
\<close>

theorem caught_result_has_no_message_counterexample:
  "fst (create_template demo_json (fixed_clock 1000) widget_args blocked_server)
     = Inr (caught_result (ENOTDIR [''srv'', ''patents'', ''1000'']))
   \<and> message (caught_result (ENOTDIR [''srv'', ''patents'', ''1000''])) = None"
  by code_simp

lemma read_after_exists:
  "existsSync p fsys \<Longrightarrow>
     (\<exists>c. readFileSync p fsys = Inr c) \<or> readFileSync p fsys = Inl (EISDIR p)"
  by (auto simp add: existsSync_def readFileSync_def split: option.splits node.splits)

lemma create_template_fields:
  "case fst (create_template s clk (JObj a) st) of
     Inr r \<Rightarrow> success r \<noteq> None \<and>
        (message r \<noteq> None \<and> error r = None \<or>
         message r = None \<and> error r \<noteq> None \<and> success r = Some False)
   | Inl e \<Rightarrow> False"
  by (auto simp add: create_template_def Let_def duplicate_result_def caught_result_def no_fields_def
        split: prod.splits bool.splits sum.splits)

lemma send_user_response_fields:
  "case fst (send_user_response clk (JObj a) st) of
     Inr r \<Rightarrow> success r \<noteq> None \<and>
        (message r \<noteq> None \<and> error r = None \<or>
         message r = None \<and> error r \<noteq> None \<and> success r = Some False)
   | Inl e \<Rightarrow> False"
  by (auto simp add: send_user_response_def Let_def no_session_result_def caught_result_def no_fields_def
        split: prod.splits option.splits sum.splits)

lemma export_as_pdf_fields:
  "case fst (export_as_pdf clk args st) of
     Inr r \<Rightarrow> success r \<noteq> None \<and> message r \<noteq> None \<and> error r = None
   | Inl e \<Rightarrow> False"
  by (simp add: export_as_pdf_def Let_def no_session_result_def file_not_found_result_def no_fields_def
        split: option.splits)

lemma display_patent_fields:
  "case fst (display_patent clk args st) of
     Inr r \<Rightarrow> success r \<noteq> None \<and> message r \<noteq> None \<and> error r = None
   | Inl e \<Rightarrow> \<exists>s. currentSession st = Some s \<and> e = EISDIR (path s @ [''main.md''])"
proof (cases "getCurrentSession st")
  case None
  then show ?thesis by (simp add: display_patent_def no_session_result_def no_fields_def)
next
  case (Some s)
  show ?thesis
  proof (cases "existsSync (path s @ [''main.md'']) (fs st)")
    case False
    then show ?thesis using Some
      by (simp add: display_patent_def file_not_found_result_def no_fields_def)
  next
    case True
    from read_after_exists[OF True] show ?thesis using Some True
      by (auto simp add: display_patent_def no_fields_def getCurrentSession_def)
  qed
qed

lemma resume_patent_creation_fields:
  "case fst (resume_patent_creation stringify clk args st) of
     Inr r \<Rightarrow> success r \<noteq> None \<and> message r \<noteq> None \<and> error r = None
   | Inl e \<Rightarrow> \<exists>s. currentSession st = Some s \<and>
               (e = EISDIR (path s @ [''main.md'']) \<or> to_string (title s) = Inl e)"
proof -
  obtain d ops where chk: "checkDuplicate stringify ''resume_patent_creation'' (JObj []) (clk 0) 2000
             (recentOperations st) = (d, ops)"
    by (cases "checkDuplicate stringify ''resume_patent_creation'' (JObj []) (clk 0) 2000
             (recentOperations st)")
  show ?thesis
  proof (cases d)
    case True
    then show ?thesis using chk
      by (simp add: resume_patent_creation_def duplicate_result_def no_fields_def)
  next
    case False
    note notdup = this
    show ?thesis
    proof (cases "currentSession st")
      case None
      then show ?thesis using chk notdup
        by (simp add: resume_patent_creation_def getCurrentSession_def no_fields_def)
    next
      case (Some s)
      show ?thesis
      proof (cases "existsSync (path s @ [''main.md'']) (fs st)")
        case False
        then show ?thesis using Some chk notdup
          by (simp add: resume_patent_creation_def getCurrentSession_def
                file_not_found_result_def no_fields_def)
      next
        case True
        from read_after_exists[OF True] show ?thesis using Some True chk notdup
          by (auto simp add: resume_patent_creation_def no_fields_def getCurrentSession_def
                Let_def split: sum.splits)
      qed
    qed
  qed
qed

text \<open>
  Claim C4, amended. For every operation of the dispatch table and every argument object,
  a returned result object has a boolean \<^verbatim>\<open>success\<close>; it has a \<^verbatim>\<open>message\<close> string and no
  \<^verbatim>\<open>error\<close>, except on the \<^verbatim>\<open>catch\<close> branches of \<open>create_template\<close> and
  \<open>send_user_response\<close>, where it has \<^verbatim>\<open>success: false\<close> and \<^verbatim>\<open>error\<close> and no
  \<^verbatim>\<open>message\<close>. A handler throws instead of returning only in \<open>resume_patent_creation\<close>
  and \<open>display_patent\<close>, when \<^verbatim>\<open>main.md\<close> of the active session is a directory, and in
  \<open>resume_patent_creation\<close>, when the title of the active session does not convert to a
  string.
\<close>

theorem result_fields_on_every_return:
  "case fst (patentFunctions stringify opn clk (JObj a) st) of
     Inr r \<Rightarrow>
       success r \<noteq> None \<and>
       (message r \<noteq> None \<and> error r = None \<or>
        message r = None \<and> error r \<noteq> None \<and> success r = Some False \<and>
          (opn = Create_template \<or> opn = Send_user_response))
   | Inl e \<Rightarrow>
       (opn = Resume_patent_creation \<or> opn = Display_patent) \<and>
       (\<exists>s. currentSession st = Some s \<and>
            (e = EISDIR (path s @ [''main.md''])
             \<or> opn = Resume_patent_creation \<and> to_string (title s) = Inl e))"
proof (cases opn)
  case Create_template
  then show ?thesis using create_template_fields[where s=stringify and clk=clk and a=a and st=st]
    by (simp split: sum.splits)
next
  case Resume_patent_creation
  then show ?thesis using resume_patent_creation_fields[where stringify=stringify and clk=clk and args="JObj a" and st=st]
    by (simp split: sum.splits)
next
  case Display_patent
  then show ?thesis using display_patent_fields[where clk=clk and args="JObj a" and st=st]
    by (auto split: sum.splits)
next
  case Export_as_pdf
  then show ?thesis using export_as_pdf_fields[where clk=clk and args="JObj a" and st=st]
    by (simp split: sum.splits)
next
  case Send_user_response
  then show ?thesis using send_user_response_fields[where clk=clk and a=a and st=st]
    by (simp split: sum.splits)
qed

theorem result_fields_on_every_return_witness:
  "case fst (patentFunctions demo_json Send_user_response (fixed_clock 1200)
               (JObj [(''message'', JObj [(''toString'', JNum ''1'')])]) busy_server) of
     Inr r \<Rightarrow>
       success r \<noteq> None \<and>
       (message r \<noteq> None \<and> error r = None \<or>
        message r = None \<and> error r \<noteq> None \<and> success r = Some False \<and>
          (Send_user_response = Create_template \<or> Send_user_response = Send_user_response))
   | Inl e \<Rightarrow>
       (Send_user_response = Resume_patent_creation \<or> Send_user_response = Display_patent) \<and>
       (\<exists>s. currentSession busy_server = Some s \<and>
            (e = EISDIR (path s @ [''main.md''])
             \<or> Send_user_response = Resume_patent_creation \<and> to_string (title s) = Inl e))"
  by (rule result_fields_on_every_return)


section \<open>Appending to the document\<close>

lemma mkdirSync_target:
  "mkdirSync p fsys = Inr f \<Longrightarrow> f p = Some Dir"
  by (auto simp add: mkdirSync_def split: option.splits)

lemma create_template_has_document:
  assumes "create_template s clk (JObj a) st = (out, st1)" and "succeeded out"
  shows "\<exists>md. initialMd (case map_of a ''title'' of None \<Rightarrow> JUndefined | Some v \<Rightarrow> v) = Inr md
            \<and> has_document st1 (cwd st @ [''patents'', number_toString (clk 1)]) md"
  using assms mkdirSync_target
  by (auto simp add: create_template_def createPatentSession_def Let_def succeeded_def
        has_document_def duplicate_result_def caught_result_def no_fields_def writeFileSync_def
        split: prod.splits bool.splits sum.splits option.splits node.splits)

lemma send_user_response_appends:
  assumes "has_document st p c"
    and "send_user_response clk (JObj [(''message'', JStr m)]) st = (out, st')"
  shows "succeeded out \<and> has_document st' p (c @ newline @ newline @ m)"
  using assms
  by (auto simp add: send_user_response_def getCurrentSession_def has_document_def Let_def
        readFileSync_def writeFileSync_def succeeded_def no_fields_def updateSessionModified_def
        split: option.splits)

lemma send_all_appends:
  assumes "has_document st p c" and "send_all ms st = (outs, st')"
  shows "list_all succeeded outs \<and>
         has_document st' p (c @ concat (map (\<lambda>(clk, m). newline @ newline @ m) ms))"
  using assms
proof (induction ms arbitrary: st c outs st')
  case Nil
  then show ?case by simp
next
  case (Cons x ms)
  obtain clk m where x: "x = (clk, m)" by (cases x)
  obtain out st1 where s1: "send_user_response clk (JObj [(''message'', JStr m)]) st = (out, st1)"
    by (cases "send_user_response clk (JObj [(''message'', JStr m)]) st")
  obtain outs1 st2 where s2: "send_all ms st1 = (outs1, st2)"
    by (cases "send_all ms st1")
  have one: "succeeded out \<and> has_document st1 p (c @ newline @ newline @ m)"
    using send_user_response_appends[OF Cons.prems(1) s1] .
  have rest: "list_all succeeded outs1 \<and>
      has_document st2 p ((c @ newline @ newline @ m) @ concat (map (\<lambda>(clk, m). newline @ newline @ m) ms))"
    using Cons.IH[OF _ s2] one by blast
  have "outs = out # outs1" "st' = st2"
    using Cons.prems(2) x s1 s2 by simp_all
  then show ?case using one rest x by simp
qed

lemma has_document_file:
  "has_document st p c \<Longrightarrow> readFileSync (p @ [''main.md'']) (fs st) = Inr c"
  by (simp add: has_document_def readFileSync_def split: option.splits)

lemma display_patent_reads:
  assumes "has_document st p c"
  shows "case fst (display_patent clk args st) of
           Inr r \<Rightarrow> success r = Some True \<and> content r = Some c
         | Inl e \<Rightarrow> False"
  using assms
  by (auto simp add: display_patent_def getCurrentSession_def has_document_def existsSync_def
        readFileSync_def no_fields_def split: option.splits)

text \<open>
  Claim C5. After a successful \<open>create_template\<close> with a title and any sequence of
  \<open>send_user_response\<close> calls with message texts, every append succeeds and the document,
  read from the file or through \<open>display_patent\<close>, is the skeleton (a heading with the
  title and the five sections Abstract, Background, Summary, Detailed Description and
  Claims, each with its placeholder line) followed by the message texts in call order,
  each preceded by two line feeds. The skeleton ends with a line feed, so three line feeds
  stand between its last line and the first message text.
\<close>

theorem appended_blocks_follow_skeleton:
  assumes created: "create_template stringify clk (JObj [(''title'', JStr ttl)]) st = (out, st1)"
    and ok: "succeeded out"
    and sent: "send_all sends st1 = (outs, st2)"
  shows "list_all succeeded outs
       \<and> readFileSync (cwd st @ [''patents'', number_toString (clk 1), ''main.md'']) (fs st2)
           = Inr (''# '' @ ttl @ ''\<newline>\<newline>## Abstract\<newline>[Brief summary of the invention]\<newline>\<newline>## Background\<newline>[Context and existing solutions]\<newline>\<newline>## Summary\<newline>[Overview of the invention]\<newline>\<newline>## Detailed Description\<newline>[Complete technical details]\<newline>\<newline>## Claims\<newline>[Legal claims of the patent]\<newline>''
                  @ concat (map (\<lambda>(c, m). ''\<newline>\<newline>'' @ m) sends))
       \<and> (case fst (display_patent clk' args' st2) of
            Inr r \<Rightarrow> success r = Some True \<and>
              content r = Some (''# '' @ ttl @ ''\<newline>\<newline>## Abstract\<newline>[Brief summary of the invention]\<newline>\<newline>## Background\<newline>[Context and existing solutions]\<newline>\<newline>## Summary\<newline>[Overview of the invention]\<newline>\<newline>## Detailed Description\<newline>[Complete technical details]\<newline>\<newline>## Claims\<newline>[Legal claims of the patent]\<newline>''
                                @ concat (map (\<lambda>(c, m). ''\<newline>\<newline>'' @ m) sends))
          | Inl e \<Rightarrow> False)"
proof -
  let ?p = "cwd st @ [''patents'', number_toString (clk 1)]"
  let ?skeleton = "''# '' @ ttl @ ''\<newline>\<newline>## Abstract\<newline>[Brief summary of the invention]\<newline>\<newline>## Background\<newline>[Context and existing solutions]\<newline>\<newline>## Summary\<newline>[Overview of the invention]\<newline>\<newline>## Detailed Description\<newline>[Complete technical details]\<newline>\<newline>## Claims\<newline>[Legal claims of the patent]\<newline>''"
  let ?doc = "?skeleton @ concat (map (\<lambda>(c, m). newline @ newline @ m) sends)"
  let ?text = "''# '' @ ttl @ ''\<newline>\<newline>## Abstract\<newline>[Brief summary of the invention]\<newline>\<newline>## Background\<newline>[Context and existing solutions]\<newline>\<newline>## Summary\<newline>[Overview of the invention]\<newline>\<newline>## Detailed Description\<newline>[Complete technical details]\<newline>\<newline>## Claims\<newline>[Legal claims of the patent]\<newline>''
                 @ concat (map (\<lambda>(c, m). ''\<newline>\<newline>'' @ m) sends)"
  have sep: "(\<lambda>(c :: clock, m). newline @ newline @ m) = (\<lambda>(c, m). ''\<newline>\<newline>'' @ m)"
    by (simp add: newline_def)
  have same_text: "?doc = ?text"
    unfolding sep by (simp only: append_assoc)
  have "initialMd (JStr ttl) = Inr ?skeleton"
    by (rule initialMd_text) simp
  then have "has_document st1 ?p ?skeleton"
    using create_template_has_document[OF created ok] by simp
  from send_all_appends[OF this sent]
  have all: "list_all succeeded outs" and "has_document st2 ?p ?doc" by simp_all
  then have doc: "has_document st2 ?p ?text"
    by (simp only: same_text)
  have pth: "?p @ [''main.md''] = cwd st @ [''patents'', number_toString (clk 1), ''main.md'']"
    by simp
  have rd: "readFileSync (cwd st @ [''patents'', number_toString (clk 1), ''main.md'']) (fs st2)
              = Inr ?text"
    using has_document_file[OF doc] unfolding pth .
  show ?thesis
    using all rd display_patent_reads[OF doc, of clk' args'] by blast
qed

theorem appended_blocks_follow_skeleton_witness:
  "readFileSync [''srv'', ''patents'', ''1000'', ''main.md'']
     (fs (snd (send_all [(fixed_clock 1200, ''claim 1 text''), (fixed_clock 1300, ''claim 2 text'')]
        (snd (create_template demo_json (fixed_clock 1000) (JObj [(''title'', JStr ''Widget'')])
                demo_server)))))
   = Inr ''# Widget\<newline>\<newline>## Abstract\<newline>[Brief summary of the invention]\<newline>\<newline>## Background\<newline>[Context and existing solutions]\<newline>\<newline>## Summary\<newline>[Overview of the invention]\<newline>\<newline>## Detailed Description\<newline>[Complete technical details]\<newline>\<newline>## Claims\<newline>[Legal claims of the patent]\<newline>\<newline>\<newline>claim 1 text\<newline>\<newline>claim 2 text''"
proof -
  let ?c = "create_template demo_json (fixed_clock 1000) (JObj [(''title'', JStr ''Widget'')]) demo_server"
  let ?s = "send_all [(fixed_clock 1200, ''claim 1 text''), (fixed_clock 1300, ''claim 2 text'')] (snd ?c)"
  have h1: "?c = (fst ?c, snd ?c)" by simp
  have h2: "succeeded (fst ?c)" by code_simp
  have h3: "?s = (fst ?s, snd ?s)" by simp
  have p: "cwd demo_server @ [''patents'', number_toString (fixed_clock 1000 1), ''main.md'']
             = [''srv'', ''patents'', ''1000'', ''main.md'']"
    by code_simp
  show ?thesis
    using appended_blocks_follow_skeleton[OF h1 h2 h3] unfolding p by simp
qed


section \<open>The session registry\<close>

text \<open>
  Claim C6, as stated: every session creation generates a new unique session id. It fails
  for two calls whose \<^verbatim>\<open>Date.now()\<close> readings are the same millisecond: both sessions get
  the id \<^verbatim>\<open>1000\<close>.
\<close>

theorem same_millisecond_same_id_counterexample:
  "map (map_sum id sid)
     (fst (start_all [(fixed_clock 1000, JStr ''Widget''), (fixed_clock 1000, JStr ''Gadget'')]
             demo_server))
   = [Inr ''1000'', Inr ''1000'']"
  by code_simp

lemma digits_not_Nil: "digits n \<noteq> []"
  by (subst digits.simps) simp

lemma digit_char_inj: "a < 10 \<Longrightarrow> b < 10 \<Longrightarrow> digit_char a = digit_char b \<Longrightarrow> a = b"
  by (simp add: digit_char_def char_of_eq_iff take_bit_eq_mod)

lemma minus_char: "CHR ''-'' = char_of (45::nat)"
  by (simp add: char_of_def bit_Suc_0_iff)

lemma digit_char_not_minus: "a < 10 \<Longrightarrow> digit_char a \<noteq> CHR ''-''"
  unfolding minus_char by (simp add: digit_char_def char_of_eq_iff take_bit_eq_mod)

lemma digits_no_minus: "CHR ''-'' \<notin> set (digits n)"
proof (induction n rule: digits.induct)
  case (1 n)
  show ?case
  proof (cases "n < 10")
    case True
    then show ?thesis using digit_char_not_minus[of n] by (subst digits.simps) auto
  next
    case False
    then show ?thesis
      using 1 digit_char_not_minus[of "n mod 10"] by (subst digits.simps) auto
  qed
qed

lemma digits_inj: "digits m = digits n \<Longrightarrow> m = n"
proof (induction m arbitrary: n rule: digits.induct)
  case (1 m)
  show ?case
  proof (cases "m < 10")
    case True
    note m = this
    show ?thesis
    proof (cases "n < 10")
      case True
      then show ?thesis using m "1.prems" digit_char_inj[of m n]
        by (simp add: digits.simps[of m] digits.simps[of n])
    next
      case False
      then show ?thesis using m "1.prems" digits_not_Nil[of "n div 10"]
        by (simp add: digits.simps[of m] digits.simps[of n])
    qed
  next
    case False
    note m = this
    show ?thesis
    proof (cases "n < 10")
      case True
      then show ?thesis using m "1.prems" digits_not_Nil[of "m div 10"]
        by (simp add: digits.simps[of m] digits.simps[of n])
    next
      case False
      then have eq: "digits (m div 10) = digits (n div 10)"
          "digit_char (m mod 10) = digit_char (n mod 10)"
        using m "1.prems" by (simp_all add: digits.simps[of m] digits.simps[of n])
      have "m div 10 = n div 10" using "1.IH"[OF m eq(1)] .
      moreover have "m mod 10 = n mod 10" using digit_char_inj[OF _ _ eq(2)] by simp
      ultimately show ?thesis by (metis div_mult_mod_eq)
    qed
  qed
qed

lemma number_toString_inj:
  assumes eq: "number_toString m = number_toString n"
  shows "m = n"
  proof (cases "m < 0")
    case True
    note m = this
    show ?thesis
    proof (cases "n < 0")
      case True
      then have "nat (- m) = nat (- n)" using eq m digits_inj by (simp add: number_toString_def)
      then show ?thesis using m True by simp
    next
      case False
      then have "digits (nat n) = CHR ''-'' # digits (nat (- m))"
        using eq m by (simp add: number_toString_def)
      then have "CHR ''-'' \<in> set (digits (nat n))" by simp
      then show ?thesis using digits_no_minus by blast
    qed
  next
    case False
    note m = this
    show ?thesis
    proof (cases "n < 0")
      case True
      then have "digits (nat m) = CHR ''-'' # digits (nat (- n))"
        using eq m by (simp add: number_toString_def)
      then have "CHR ''-'' \<in> set (digits (nat m))" by simp
      then show ?thesis using digits_no_minus by blast
    next
      case False
      then have "nat m = nat n" using eq m digits_inj by (simp add: number_toString_def)
      then show ?thesis using m False by simp
    qed
  qed

lemma createPatentSession_record:
  assumes "createPatentSession clk ttl st = Inr (s, st')"
  shows "s = \<lparr> sid = number_toString (clk 0), title = ttl,
               path = cwd st @ [''patents'', number_toString (clk 0)],
               createdAt = clk 1, lastModified = clk 2 \<rparr>"
    and "currentSession st' = Some s"
  using assms by (auto simp add: createPatentSession_def Let_def split: sum.splits)

lemma start_all_ids:
  "start_all cs st = (outs, st') \<Longrightarrow>
     list_all2 (\<lambda>(c, t) out. \<forall>s0. out = Inr s0 \<longrightarrow> sid s0 = number_toString (c 0)) cs outs"
proof (induction cs arbitrary: st outs st')
  case Nil
  then show ?case by simp
next
  case (Cons x cs)
  obtain clk ttl where x: "x = (clk, ttl)" by (cases x)
  show ?case
  proof (cases "createPatentSession clk ttl st")
    case (Inl e)
    obtain o1 s1 where r: "start_all cs st = (o1, s1)" by (cases "start_all cs st")
    then have "outs = Inl e # o1" using Cons.prems x Inl by simp
    then show ?thesis using Cons.IH[OF r] x by simp
  next
    case (Inr p)
    obtain s st1 where p: "p = (s, st1)" by (cases p)
    obtain o1 s1 where r: "start_all cs st1 = (o1, s1)" by (cases "start_all cs st1")
    then have "outs = Inr s # o1" using Cons.prems x Inr p by simp
    moreover have "sid s = number_toString (clk 0)"
      using createPatentSession_record(1)[of clk ttl st s st1] Inr p by simp
    ultimately show ?thesis using Cons.IH[OF r] x by simp
  qed
qed

lemma start_all_append:
  "start_all (xs @ ys) st =
     (case start_all xs st of (o1, st1) \<Rightarrow>
        (case start_all ys st1 of (o2, st2) \<Rightarrow> (o1 @ o2, st2)))"
proof (induction xs arbitrary: st)
  case Nil
  then show ?case by (simp split: prod.splits)
next
  case (Cons x xs)
  obtain clk ttl where x: "x = (clk, ttl)" by (cases x)
  show ?case unfolding x by (simp add: Cons.IH split: prod.splits sum.splits)
qed

text \<open>
  Claim C6, amended. After any sequence of \<open>createPatentSession\<close> calls whose last call
  returns, the active session is the record that call returned: its id is the decimal
  text of the call's \<^verbatim>\<open>Date.now()\<close> reading, its title the given one, and
  \<open>createdAt\<close> and \<open>lastModified\<close> the two clock readings taken after it. The id differs
  from the id of an earlier session of the sequence exactly when the two \<^verbatim>\<open>Date.now()\<close>
  readings differ.
\<close>

theorem startNew_replaces_slot:
  assumes run: "start_all (calls @ [(clk, ttl)]) st = (outs, st')"
    and ok: "last outs = Inr s"
  shows "getCurrentSession st' = Some s
       \<and> sid s = number_toString (clk 0) \<and> title s = ttl
       \<and> createdAt s = clk 1 \<and> lastModified s = clk 2
       \<and> (\<forall>((c, t), out) \<in> set (zip calls outs).
             \<forall>s0. out = Inr s0 \<longrightarrow> (sid s0 = sid s \<longleftrightarrow> c 0 = clk 0))"
proof -
  obtain o1 st1 where first: "start_all calls st = (o1, st1)" by (cases "start_all calls st")
  have shape: "outs = o1 @ [Inr s]" and created: "createPatentSession clk ttl st1 = Inr (s, st')"
    using run ok first by (auto simp add: start_all_append split: sum.splits prod.splits)
  note rec = createPatentSession_record[OF created]
  have ids: "list_all2 (\<lambda>(c, t) out. \<forall>s0. out = Inr s0 \<longrightarrow> sid s0 = number_toString (c 0)) calls o1"
    using start_all_ids[OF first] .
  then have len: "length calls = length o1" by (rule list_all2_lengthD)
  have earlier: "sid s0 = sid s \<longleftrightarrow> c 0 = clk 0"
    if "((c, t), Inr s0) \<in> set (zip calls o1)" for c t s0
  proof -
    have "sid s0 = number_toString (c 0)"
      using ids that unfolding list_all2_iff by fastforce
    moreover have "sid s = number_toString (clk 0)" using rec(1) by simp
    ultimately show ?thesis using number_toString_inj[of "c 0" "clk 0"] by auto
  qed
  have "zip calls outs = zip calls o1" using len shape by (simp add: zip_append2)
  then show ?thesis using rec earlier by (auto simp add: getCurrentSession_def)
qed

theorem startNew_replaces_slot_witness:
  "getCurrentSession (snd (start_all [(fixed_clock 1000, JStr ''Widget''),
                                        (fixed_clock 1700, JStr ''Gadget'')] demo_server))
     = Some \<lparr> sid = ''1700'', title = JStr ''Gadget'', path = [''srv'', ''patents'', ''1700''],
              createdAt = 1700, lastModified = 1700 \<rparr>"
proof -
  let ?r = "start_all ([(fixed_clock 1000, JStr ''Widget'')] @ [(fixed_clock 1700, JStr ''Gadget'')])
              demo_server"
  let ?s = "\<lparr> sid = ''1700'', title = JStr ''Gadget'', path = [''srv'', ''patents'', ''1700''],
              createdAt = 1700, lastModified = 1700 \<rparr>"
  have h1: "?r = (fst ?r, snd ?r)" by simp
  have h2: "last (fst ?r) = Inr ?s" by code_simp
  show ?thesis
    using startNew_replaces_slot[OF h1 h2] by simp
qed



section \<open>Configuration of the channel\<close>

lemma sent_append [simp]: "sent (xs @ ys) = sent xs @ sent ys"
  by (induction xs rule: sent.induct) auto

lemma delivered_append [simp]: "delivered (xs @ ys) = delivered xs @ delivered ys"
  by (induction xs rule: delivered.induct) auto

lemma forEach_Cons:
  "forEach s (out # outs) p =
     (fst (forEach s outs (fst (on_output s p out))),
      snd (on_output s p out) @ snd (forEach s outs (fst (on_output s p out))))"
  by (simp split: prod.splits)

lemma panel_run_Cons:
  "panel_run s (sg # sgs) p =
     (fst (panel_run s sgs (fst (panel_step s sg p))),
      snd (panel_step s sg p) @ snd (panel_run s sgs (fst (panel_step s sg p))))"
  by (simp split: prod.splits)

lemma panel_step_Activity:
  "panel_step s (Activity b) p =
     (fst (reset_effect (fst (configuration_effect (p\<lparr> isSessionActive := b \<rparr>)))),
      snd (configuration_effect (p\<lparr> isSessionActive := b \<rparr>))
        @ snd (reset_effect (fst (configuration_effect (p\<lparr> isSessionActive := b \<rparr>)))))"
  by (simp split: prod.splits)

lemma on_output_sends_nothing:
  "sent (snd (on_output s p out)) = [] \<and> functionAdded (fst (on_output s p out)) = functionAdded p"
  by (simp add: on_output_def Let_def)

lemma forEach_sends_nothing:
  "sent (snd (forEach s outs p)) = [] \<and> functionAdded (fst (forEach s outs p)) = functionAdded p"
proof (induction outs arbitrary: p)
  case Nil
  then show ?case by simp
next
  case (Cons out outs)
  show ?case
    unfolding forEach_Cons
    using Cons[of "fst (on_output s p out)"] on_output_sends_nothing[of s p out] by simp
qed

lemma events_effect_sends_nothing:
  "sent (snd (events_effect s evs p)) = [] \<and> functionAdded (fst (events_effect s evs p)) = functionAdded p"
  using forEach_sends_nothing
  by (simp add: events_effect_def split: option.splits list.splits)

lemma activation_effects:
  "panel_step s (Activity True) p =
     (if functionAdded p then (p\<lparr> isSessionActive := True \<rparr>, [])
      else (p\<lparr> isSessionActive := True, functionAdded := True \<rparr>, [Send sessionUpdate]))"
  by (simp add: configuration_effect_def reset_effect_def)

lemma deactivation_effects:
  "panel_step s (Activity False) p =
     (p\<lparr> isSessionActive := False, functionAdded := False, functionCallOutput := None,
         lastFunctionCallRef := None \<rparr>, [])"
  by (simp add: configuration_effect_def reset_effect_def)

lemma configured_stays_silent:
  assumes "functionAdded p" and "Activity False \<notin> set sgs"
  shows "sent (snd (panel_run s sgs p)) = []"
  using assms
proof (induction sgs arbitrary: p)
  case Nil
  then show ?case by simp
next
  case (Cons sg sgs)
  have step: "sent (snd (panel_step s sg p)) = [] \<and> functionAdded (fst (panel_step s sg p))"
  proof (cases sg)
    case (Activity b)
    then have "b" using Cons.prems(2) by auto
    then show ?thesis using Activity Cons.prems(1) activation_effects[of s p] by simp
  next
    case Readiness
    then show ?thesis using Cons.prems(1) by (simp add: configuration_effect_def)
  next
    case (Inbound evs)
    then show ?thesis using Cons.prems(1) events_effect_sends_nothing[of s evs p] by simp
  qed
  have "sent (snd (panel_run s sgs (fst (panel_step s sg p)))) = []"
    using Cons.IH[of "fst (panel_step s sg p)"] step Cons.prems(2) by simp
  then show ?case unfolding panel_run_Cons using step by simp
qed

text \<open>
  Claim C3. While the channel is not deactivated, a panel whose configuration flag is set
  sends nothing, whatever readiness signals, repeated activations and inbound events
  arrive; an activation with the flag not set sends exactly one configuration event; and
  after a deactivation followed by a reactivation exactly one configuration event is sent,
  whatever signals follow without a deactivation.
\<close>

theorem one_configuration_per_activation:
  assumes "Activity False \<notin> set sgs"
  shows "(functionAdded p \<longrightarrow> sent (snd (panel_run s sgs p)) = [])
       \<and> (\<not> functionAdded p \<longrightarrow> sent (snd (panel_run s (Activity True # sgs) p)) = [sessionUpdate])
       \<and> sent (snd (panel_run s (Activity False # Activity True # sgs) p)) = [sessionUpdate]"
proof -
  have a: "sent (snd (panel_run s sgs q)) = []" if "functionAdded q" for q
    using configured_stays_silent[OF that assms] .
  have b: "sent (snd (panel_run s (Activity True # sgs) q)) = [sessionUpdate]"
    if "\<not> functionAdded q" for q
    unfolding panel_run_Cons[of s "Activity True"] activation_effects
    using that a[of "q\<lparr>isSessionActive := True, functionAdded := True\<rparr>"] by simp
  have c: "sent (snd (panel_run s (Activity False # Activity True # sgs) p)) = [sessionUpdate]"
    unfolding panel_run_Cons[of s "Activity False"] deactivation_effects
    using b[of "p\<lparr>isSessionActive := False, functionAdded := False, functionCallOutput := None,
               lastFunctionCallRef := None\<rparr>"] by simp
  show ?thesis using a b c by blast
qed


theorem one_configuration_per_activation_witness:
  "sent (snd (panel_run demo_output_json
      [Activity False, Activity True, Readiness,
       Inbound (Some [response_done [call_display]]), Activity True, Readiness] busy_panel))
     = [sessionUpdate]"
proof -
  have h: "Activity False \<notin> set [Readiness, Inbound (Some [response_done [call_display]]),
                                    Activity True, Readiness]"
    by simp
  show ?thesis
    using one_configuration_per_activation[OF h, of busy_panel demo_output_json] by blast
qed


section \<open>Inbound events\<close>

lemma forEach_delivers_own: "set (delivered (snd (forEach s outs p))) \<subseteq> set outs"
proof (induction outs arbitrary: p)
  case Nil
  then show ?case by simp
next
  case (Cons out outs)
  have "set (delivered (snd (on_output s p out))) \<subseteq> {out}"
    by (simp add: on_output_def Let_def)
  then show ?case
    unfolding forEach_Cons using Cons[of "fst (on_output s p out)"] by auto
qed

text \<open>
  Claim C10. The effect on the event list depends on the first element only: the result is
  the same whatever older events follow it, every delivered function call is an output of
  the first event, and when the first event is not \<^verbatim>\<open>response.done\<close> nothing is delivered
  and the panel is unchanged, so the function calls of the older events are dropped.
\<close>

theorem only_head_event_inspected:
  "events_effect s (Some (e # older)) p = events_effect s (Some [e]) p
   \<and> set (delivered (snd (events_effect s (Some (e # older)) p))) \<subseteq> set (event_outputs e)
   \<and> (etype e \<noteq> ''response.done'' \<longrightarrow> events_effect s (Some (e # older)) p = (p, []))"
  using forEach_delivers_own
  by (simp add: events_effect_def event_outputs_def split: option.splits)

theorem only_head_event_inspected_witness:
  "events_effect demo_output_json (Some [other_event, response_done [call_display]]) idle_panel
     = (idle_panel, [])"
proof -
  have h: "etype other_event \<noteq> ''response.done''" by (simp add: other_event_def)
  show ?thesis
    using only_head_event_inspected[of demo_output_json other_event "[response_done [call_display]]"
        idle_panel] h by blast
qed

section \<open>The execution of delivered function calls\<close>




subsection \<open>Every render leaves a settled tree\<close>























subsection \<open>The renders that deliver a function call\<close>





lemma sender_change_repeats_execution:
  "handovers demo_output_json demo_parse
     [demo_props True 1 [response_done [call_display]],
      (demo_props True 1 [response_done [call_display]])\<lparr> prop_sendClientEvent := 1 \<rparr>] started
     = [call_display]
   \<and> executions demo_output_json demo_parse
     [demo_props True 1 [response_done [call_display]],
      (demo_props True 1 [response_done [call_display]])\<lparr> prop_sendClientEvent := 1 \<rparr>] started
     = [display_request, display_request]"
  by code_simp

lemma batched_calls_execute_last_only:
  "handovers demo_output_json demo_parse [arrival 0 1 [call_display, call_export] []] started
     = [call_display, call_export]
   \<and> executions demo_output_json demo_parse [arrival 0 1 [call_display, call_export] []] started
     = [export_request]"
  by code_simp





section \<open>Deactivation of the channel\<close>

lemma resume_recovers:
  assumes "getCurrentSession st = Some s0"
    and "to_string (title s0) = Inr t"
    and "has_document st p c"
    and "\<not> fst (checkDuplicate sa ''resume_patent_creation'' (JObj []) (clk 0) 2000
                  (recentOperations st))"
  shows "case fst (resume_patent_creation sa clk args st) of
           Inr r \<Rightarrow> success r = Some True \<and> result_session r = Some s0
                     \<and> content r = Some c
         | Inl e \<Rightarrow> False"
  using assms
  by (auto simp add: resume_patent_creation_def getCurrentSession_def has_document_def
        existsSync_def readFileSync_def no_fields_def Let_def
        split: option.splits prod.splits bool.splits)

lemma render_inactive_posts_nothing:
  "snd (snd (render so parse (pr\<lparr> prop_isSessionActive := False \<rparr>) t)) = []"
  by (simp add: render_def commit_def Let_def reconcile_child_def case_prod_beta)

text \<open>
  Claim C7. The render in which the channel became inactive resets the configuration flag,
  the pending function call and the signature of the last function call, sends nothing,
  posts no request to the executor, whatever the component tree was, and leaves the
  server, with its active session, as it was: after a reactivation
  \<open>resume_patent_creation\<close>, unless suppressed as a duplicate, returns the session of
  before with its document, provided the session has its document and a title that
  converts to a string.
\<close>

theorem deactivation_resets_relay_only:
  "front (system_step so sa (Signal (Activity False)) sys)
     = (front sys)\<lparr> isSessionActive := False, functionAdded := False,
                     functionCallOutput := None, lastFunctionCallRef := None \<rparr>
   \<and> snd (panel_step so (Activity False) (front sys)) = []
   \<and> snd (snd (render so parse (pr\<lparr> prop_isSessionActive := False \<rparr>) tr)) = []
   \<and> backend (system_step so sa (Signal (Activity False)) sys) = backend sys
   \<and> (getCurrentSession (backend sys) = Some s0
        \<and> to_string (title s0) = Inr t
        \<and> has_document (backend sys) p c
        \<and> \<not> fst (checkDuplicate sa ''resume_patent_creation'' (JObj []) (clk 0) 2000
                    (recentOperations (backend sys)))
      \<longrightarrow> (case fst (resume_patent_creation sa clk args
                       (backend (system_step so sa (Signal (Activity True))
                                  (system_step so sa (Signal (Activity False)) sys)))) of
             Inr r \<Rightarrow> success r = Some True
                       \<and> result_session r = Some s0
                       \<and> content r = Some c
           | Inl e \<Rightarrow> False))"
proof -
  have unchanged: "backend (system_step so sa (Signal (Activity True))
                (system_step so sa (Signal (Activity False)) sys)) = backend sys"
    by simp
  show ?thesis
    unfolding unchanged
    using resume_recovers[where st="backend sys" and ?s0.0=s0 and t=t and p=p and c=c
        and sa=sa and clk=clk and args=args]
    by (simp add: deactivation_effects render_inactive_posts_nothing del: panel_step.simps)
qed

theorem deactivation_resets_relay_only_witness:
  "succeeded (fst (resume_patent_creation demo_json (fixed_clock 9000) (JObj [])
      (backend (system_step demo_output_json demo_json (Signal (Activity True))
                 (system_step demo_output_json demo_json (Signal (Activity False)) busy_system)))))"
proof -
  let ?s = "\<lparr> sid = ''1000'', title = JStr ''Widget'', path = [''srv'', ''patents'', ''1000''],
              createdAt = 1000, lastModified = 1000 \<rparr>"
  have h0: "getCurrentSession (backend busy_system) = Some ?s"
    by code_simp
  have ht: "to_string (title ?s) = Inr ''Widget''"
    by simp
  have h1: "has_document (backend busy_system) [''srv'', ''patents'', ''1000'']
              (''# Widget'' @ ''\<newline>\<newline>## Abstract\<newline>[Brief summary of the invention]\<newline>\<newline>## Background\<newline>[Context and existing solutions]\<newline>\<newline>## Summary\<newline>[Overview of the invention]\<newline>\<newline>## Detailed Description\<newline>[Complete technical details]\<newline>\<newline>## Claims\<newline>[Legal claims of the patent]\<newline>'')"
    by code_simp
  have h2: "\<not> fst (checkDuplicate demo_json ''resume_patent_creation'' (JObj [])
                     (fixed_clock 9000 0) 2000 (recentOperations (backend busy_system)))"
    by code_simp
  show ?thesis
    using deactivation_resets_relay_only[where so=demo_output_json and sa=demo_json
        and sys=busy_system and ?s0.0="?s" and t="''Widget''"
        and p="[''srv'', ''patents'', ''1000'']" and c="''# Widget'' @ ''\<newline>\<newline>## Abstract\<newline>[Brief summary of the invention]\<newline>\<newline>## Background\<newline>[Context and existing solutions]\<newline>\<newline>## Summary\<newline>[Overview of the invention]\<newline>\<newline>## Detailed Description\<newline>[Complete technical details]\<newline>\<newline>## Claims\<newline>[Legal claims of the patent]\<newline>''"
        and clk="fixed_clock 9000" and args="JObj []" and parse=demo_parse
        and pr="demo_props False 1 []" and tr=started]
      h0 ht h1 h2
    by (simp add: succeeded_def split: sum.splits)
qed


end
